theory Spec2Isabelle
  imports Main
begin

section \<open>Protocol types (the shared package's types.ts)\<close>

text \<open>
  The enum \<open>MessageType\<close>; on the wire each value is a string tag
  (\<open>'register_host'\<close>, \<open>'offer'\<close>, ...).
\<close>

datatype MessageType =
    REGISTER_HOST | REGISTER_CLIENT | AUTH_SUCCESS | AUTH_ERROR
  | GET_DEVICES | DEVICE_LIST | DEVICE_ONLINE | DEVICE_OFFLINE
  | CONNECT_REQUEST | OFFER | ANSWER | ICE_CANDIDATE
  | CONNECTION_ACCEPTED | CONNECTION_REJECTED | DISCONNECT
  | ERROR

text \<open>
  A string-valued field of a parsed frame is a \<open>string option\<close>: \<open>None\<close> is JavaScript's
  \<open>undefined\<close>, the value of a key the frame does not carry. The server casts the parsed
  object to the interface of its tag (\<open>message as RegisterHostMessage\<close>) without any check
  at run time, so every field may be missing. Frames whose id fields hold JSON values
  other than strings are not modelled.
\<close>

record Device =
  deviceId :: "string option"
  deviceName :: "string option"
  platform :: "string option"
  online :: bool
  lastSeen :: nat

text \<open>
  A frame as \<open>JSON.parse\<close> returns it, when it is an object: the union
  \<open>SignalingMessage\<close> flattened to the fields the peers send. \<open>m_type\<close> is \<open>None\<close>
  when the tag is missing or is not a value of the enum. The handshake payloads
  (\<open>offer\<close>, \<open>answer\<close>, \<open>candidate\<close>) are opaque to the server and kept as strings.
\<close>

record SignalingMessage =
  m_type :: "MessageType option"
  m_timestamp :: "nat option"
  m_deviceId :: "string option"
  m_deviceName :: "string option"
  m_platform :: "string option"
  m_clientId :: "string option"
  m_targetDeviceId :: "string option"
  m_from :: "string option"
  m_to :: "string option"
  m_offer :: "string option"
  m_answer :: "string option"
  m_candidate :: "string option"

text \<open>
  What the server hands to \<open>ws.send\<close>: one constructor for each object literal the
  handlers build, and \<open>Forwarded\<close> for a received frame that is sent on as it is
  (\<open>this.send(targetClient.ws, message)\<close>).
\<close>

datatype Outbound =
    AuthSuccess nat "string option"
  | DeviceList nat "Device list"
  | DeviceStatus MessageType nat Device
  | ConnectRequest nat "string option" "string option"
  | ConnectionAccepted nat "string option"
  | ErrorMsg nat string "string option"
  | Forwarded SignalingMessage

text \<open>The \<open>timestamp\<close> field of a message on the wire.\<close>

fun timestamp :: "Outbound \<Rightarrow> nat option" where
  "timestamp (AuthSuccess t i) = Some t"
| "timestamp (DeviceList t ds) = Some t"
| "timestamp (DeviceStatus st t d) = Some t"
| "timestamp (ConnectRequest t tgt cid) = Some t"
| "timestamp (ConnectionAccepted t h) = Some t"
| "timestamp (ErrorMsg t err det) = Some t"
| "timestamp (Forwarded m) = m_timestamp m"

text \<open>The \<open>type\<close> field of a message on the wire.\<close>

fun msg_type :: "Outbound \<Rightarrow> MessageType option" where
  "msg_type (AuthSuccess t i) = Some AUTH_SUCCESS"
| "msg_type (DeviceList t ds) = Some DEVICE_LIST"
| "msg_type (DeviceStatus st t d) = Some st"
| "msg_type (ConnectRequest t tgt cid) = Some CONNECT_REQUEST"
| "msg_type (ConnectionAccepted t h) = Some CONNECTION_ACCEPTED"
| "msg_type (ErrorMsg t err det) = Some ERROR"
| "msg_type (Forwarded m) = m_type m"

section \<open>The server's state (server.ts)\<close>

text \<open>
  A WebSocket object is identified by a number; \<open>client.ws === ws\<close> compares identities.
\<close>

type_synonym ws = nat

datatype ReadyState = CONNECTING | OPEN | CLOSING | CLOSED

datatype ClientType = host | client

text \<open>The interface \<open>Client\<close>: fields \<open>id\<close>, \<open>ws\<close>, \<open>type\<close>, \<open>device?\<close>.\<close>

record Client =
  c_id :: "string option"
  c_ws :: ws
  c_type :: ClientType
  c_device :: "Device option"

text \<open>
  A JavaScript \<open>Map\<close> iterates in insertion order, \<open>set\<close> on a key it holds replaces the
  value in place, \<open>set\<close> on a new key appends, \<open>delete\<close> removes the entry. Both the order
  (the disconnect path takes the first entry of a transport, the broadcast walks all
  entries) and the keys matter, so a \<open>Map\<close> is an association list.
\<close>

fun Map_set :: "'k \<Rightarrow> 'v \<Rightarrow> ('k \<times> 'v) list \<Rightarrow> ('k \<times> 'v) list" where
  "Map_set k v [] = [(k, v)]"
| "Map_set k v ((k', v') # ps) = (if k' = k then (k, v) # ps else (k', v') # Map_set k v ps)"

definition Map_get :: "('k \<times> 'v) list \<Rightarrow> 'k \<Rightarrow> 'v option" where
  "Map_get ps k = map_of ps k"

definition Map_delete :: "'k \<Rightarrow> ('k \<times> 'v) list \<Rightarrow> ('k \<times> 'v) list" where
  "Map_delete k ps = filter (\<lambda>(k', v). k' \<noteq> k) ps"

text \<open>
  One call of the method \<open>send(ws, message)\<close>: \<open>Written\<close> when the socket was open and
  the message went to \<open>ws.send\<close>, \<open>Dropped\<close> when the guard on \<open>readyState\<close> skipped it.
\<close>

datatype Sent = Written ws Outbound | Dropped ws Outbound

text \<open>
  The class \<open>SignalingServer\<close>: the maps \<open>clients\<close> and \<open>devices\<close>, and what the handlers
  read and write outside the object: the \<open>readyState\<close> of each socket, the calls of
  \<open>send\<close> so far (\<open>sends\<close>, oldest first), how many times \<open>Date.now()\<close> and
  \<open>uuidv4()\<close> have been called (\<open>ticks\<close>, \<open>draws\<close>), and the moment of each call of
  \<open>send\<close>: how many times \<open>Date.now()\<close> had been called when \<open>send\<close> was called
  (\<open>sent_at\<close>, one entry for each entry of \<open>sends\<close>).
\<close>

record SignalingServer =
  clients :: "(string option \<times> Client) list"
  devices :: "(string option \<times> Device) list"
  readyState :: "ws \<Rightarrow> ReadyState"
  sends :: "Sent list"
  sent_at :: "nat list"
  ticks :: nat
  draws :: nat

text \<open>
  The clock and the id generator are the process's environment: \<open>clock e n\<close> is what the
  \<open>n\<close>-th call of \<open>Date.now()\<close> returns and \<open>uuid e n\<close> what the \<open>n\<close>-th call of \<open>uuidv4()\<close>
  returns (the uuid package is not part of the repository).
\<close>

record Env =
  clock :: "nat \<Rightarrow> nat"
  uuid :: "nat \<Rightarrow> string"

definition Date_now :: "Env \<Rightarrow> SignalingServer \<Rightarrow> nat \<times> SignalingServer" where
  "Date_now e s = (clock e (ticks s), s\<lparr>ticks := Suc (ticks s)\<rparr>)"

definition uuidv4 :: "Env \<Rightarrow> SignalingServer \<Rightarrow> string \<times> SignalingServer" where
  "uuidv4 e s = (uuid e (draws s), s\<lparr>draws := Suc (draws s)\<rparr>)"

section \<open>The handlers\<close>

text \<open>
  \<open>send\<close>: the message goes to \<open>ws.send\<close> only if the socket is open; otherwise the
  call does nothing, which the trace records.
\<close>

definition send :: "ws \<Rightarrow> Outbound \<Rightarrow> SignalingServer \<Rightarrow> SignalingServer" where
  "send w msg s =
     (if readyState s w = OPEN
      then s\<lparr>sends := sends s @ [Written w msg], sent_at := sent_at s @ [ticks s]\<rparr>
      else s\<lparr>sends := sends s @ [Dropped w msg], sent_at := sent_at s @ [ticks s]\<rparr>)"

text \<open>
  \<open>sendError\<close> is only ever called with two arguments, so \<open>details\<close> is \<open>undefined\<close>.
  The object literal, and with it \<open>Date.now()\<close>, is evaluated before \<open>send\<close> looks at
  the socket.
\<close>

definition sendError :: "Env \<Rightarrow> ws \<Rightarrow> string \<Rightarrow> SignalingServer \<Rightarrow> SignalingServer" where
  "sendError e w err s = (let (t, s1) = Date_now e s in send w (ErrorMsg t err None) s1)"

text \<open>
  \<open>broadcastDeviceStatus\<close>: the message is built once, with one reading of the clock, and
  sent to every entry of \<open>clients\<close> whose type is \<open>'client'\<close>, in the map's order.
\<close>

definition broadcastDeviceStatus ::
    "Env \<Rightarrow> Device \<Rightarrow> MessageType \<Rightarrow> SignalingServer \<Rightarrow> SignalingServer" where
  "broadcastDeviceStatus e d status s =
     (let (t, s1) = Date_now e s;
          message = DeviceStatus status t d
      in fold (\<lambda>(k, c) st. if c_type c = client then send (c_ws c) message st else st)
           (clients s1) s1)"

definition handleRegisterHost ::
    "Env \<Rightarrow> ws \<Rightarrow> SignalingMessage \<Rightarrow> SignalingServer \<Rightarrow> SignalingServer" where
  "handleRegisterHost e w m s =
     (let (t, s1) = Date_now e s;
          d = \<lparr>deviceId = m_deviceId m, deviceName = m_deviceName m,
               platform = m_platform m, online = True, lastSeen = t\<rparr>;
          c = \<lparr>c_id = m_deviceId m, c_ws = w, c_type = host, c_device = Some d\<rparr>;
          s2 = s1\<lparr>clients := Map_set (m_deviceId m) c (clients s1)\<rparr>;
          s3 = s2\<lparr>devices := Map_set (m_deviceId m) d (devices s2)\<rparr>;
          (t', s4) = Date_now e s3;
          s5 = send w (AuthSuccess t' (m_deviceId m)) s4
      in broadcastDeviceStatus e d DEVICE_ONLINE s5)"

text \<open>
  \<open>message.clientId || uuidv4()\<close>: the generator is called only when the field is falsy,
  which for a string field means missing or empty.
\<close>

definition clientId_or_uuid ::
    "Env \<Rightarrow> SignalingMessage \<Rightarrow> SignalingServer \<Rightarrow> string \<times> SignalingServer" where
  "clientId_or_uuid e m s =
     (case m_clientId m of
        Some (x # xs) \<Rightarrow> (x # xs, s)
      | Some [] \<Rightarrow> uuidv4 e s
      | None \<Rightarrow> uuidv4 e s)"

definition handleRegisterClient ::
    "Env \<Rightarrow> ws \<Rightarrow> SignalingMessage \<Rightarrow> SignalingServer \<Rightarrow> SignalingServer" where
  "handleRegisterClient e w m s =
     (let (clientId, s1) = clientId_or_uuid e m s;
          c = \<lparr>c_id = Some clientId, c_ws = w, c_type = client, c_device = None\<rparr>;
          s2 = s1\<lparr>clients := Map_set (Some clientId) c (clients s1)\<rparr>;
          (t, s3) = Date_now e s2
      in send w (AuthSuccess t (Some clientId)) s3)"

definition handleGetDevices :: "Env \<Rightarrow> ws \<Rightarrow> SignalingServer \<Rightarrow> SignalingServer" where
  "handleGetDevices e w s =
     (let ds = map snd (devices s);
          (t, s1) = Date_now e s
      in send w (DeviceList t ds) s1)"

definition handleConnectRequest ::
    "Env \<Rightarrow> ws \<Rightarrow> SignalingMessage \<Rightarrow> SignalingServer \<Rightarrow> SignalingServer" where
  "handleConnectRequest e w m s =
     (case Map_get (clients s) (m_targetDeviceId m) of
        None \<Rightarrow> sendError e w ''Target device not found or offline'' s
      | Some targetClient \<Rightarrow>
          if c_type targetClient \<noteq> host
          then sendError e w ''Target device not found or offline'' s
          else
            (let (t, s1) = Date_now e s;
                 s2 = send (c_ws targetClient)
                        (ConnectRequest t (m_targetDeviceId m) (m_clientId m)) s1;
                 (t', s3) = Date_now e s2
             in send w (ConnectionAccepted t' (m_targetDeviceId m)) s3))"

text \<open>
  \<open>handleOffer\<close>, \<open>handleAnswer\<close> and \<open>handleIceCandidate\<close> have the same body up to the
  text they log.
\<close>

definition handleOffer :: "SignalingMessage \<Rightarrow> SignalingServer \<Rightarrow> SignalingServer" where
  "handleOffer m s =
     (case Map_get (clients s) (m_to m) of
        Some targetClient \<Rightarrow> send (c_ws targetClient) (Forwarded m) s
      | None \<Rightarrow> s)"

definition handleAnswer :: "SignalingMessage \<Rightarrow> SignalingServer \<Rightarrow> SignalingServer" where
  "handleAnswer m s =
     (case Map_get (clients s) (m_to m) of
        Some targetClient \<Rightarrow> send (c_ws targetClient) (Forwarded m) s
      | None \<Rightarrow> s)"

definition handleIceCandidate :: "SignalingMessage \<Rightarrow> SignalingServer \<Rightarrow> SignalingServer" where
  "handleIceCandidate m s =
     (case Map_get (clients s) (m_to m) of
        Some targetClient \<Rightarrow> send (c_ws targetClient) (Forwarded m) s
      | None \<Rightarrow> s)"

text \<open>
  \<open>handleDisconnect\<close>: the loop stops at the first entry whose socket is the given one
  (\<open>break\<close>). For a host the device object is marked offline and given the time of the
  call, broadcast and deleted from \<open>devices\<close>; then the entry is deleted from \<open>clients\<close>.
  The assignment \<open>client.device.online = false\<close> writes to the object that \<open>devices\<close>
  holds under the same key as well; that entry and the client entry are both deleted
  before the handler returns and the broadcast reads neither, so the write is visible
  in the broadcast message only and devices are modelled as values.
\<close>

definition handleDisconnect :: "Env \<Rightarrow> ws \<Rightarrow> SignalingServer \<Rightarrow> SignalingServer" where
  "handleDisconnect e w s =
     (case find (\<lambda>(k, c). c_ws c = w) (clients s) of
        None \<Rightarrow> s
      | Some (k, c) \<Rightarrow>
          (let s3 =
             (case (c_type c, c_device c) of
                (host, Some d) \<Rightarrow>
                  (let (t, s1) = Date_now e s;
                       d' = d\<lparr>online := False, lastSeen := t\<rparr>;
                       s2 = broadcastDeviceStatus e d' DEVICE_OFFLINE s1
                   in s2\<lparr>devices := Map_delete k (devices s2)\<rparr>)
              | _ \<Rightarrow> s)
           in s3\<lparr>clients := Map_delete k (clients s3)\<rparr>))"

definition handleMessage ::
    "Env \<Rightarrow> ws \<Rightarrow> SignalingMessage \<Rightarrow> SignalingServer \<Rightarrow> SignalingServer" where
  "handleMessage e w m s =
     (case m_type m of
        Some REGISTER_HOST \<Rightarrow> handleRegisterHost e w m s
      | Some REGISTER_CLIENT \<Rightarrow> handleRegisterClient e w m s
      | Some GET_DEVICES \<Rightarrow> handleGetDevices e w s
      | Some CONNECT_REQUEST \<Rightarrow> handleConnectRequest e w m s
      | Some OFFER \<Rightarrow> handleOffer m s
      | Some ANSWER \<Rightarrow> handleAnswer m s
      | Some ICE_CANDIDATE \<Rightarrow> handleIceCandidate m s
      | Some DISCONNECT \<Rightarrow> handleDisconnect e w s
      | _ \<Rightarrow> s)"

section \<open>The socket callbacks\<close>

text \<open>
  What arrives on a socket: text that \<open>JSON.parse\<close> rejects (it throws), the JSON value
  \<open>null\<close> (reading \<open>message.type\<close> throws), another JSON value that is not an object
  (a number, a string, a boolean, an array: \<open>message.type\<close> is \<open>undefined\<close>), or an
  object. Both exceptions are caught by the \<open>try\<close> around the parse and the dispatch.
\<close>

datatype Frame = Unparsable | JsonNull | JsonOther | JsonObject SignalingMessage

definition on_message :: "Env \<Rightarrow> ws \<Rightarrow> Frame \<Rightarrow> SignalingServer \<Rightarrow> SignalingServer" where
  "on_message e w f s =
     (case f of
        Unparsable \<Rightarrow> sendError e w ''Invalid message format'' s
      | JsonNull \<Rightarrow> sendError e w ''Invalid message format'' s
      | JsonOther \<Rightarrow> s
      | JsonObject m \<Rightarrow> handleMessage e w m s)"

text \<open>
  The \<open>'close'\<close> event is emitted once the socket's \<open>readyState\<close> is \<open>CLOSED\<close>; a socket
  handed to the \<open>'connection'\<close> callback is \<open>OPEN\<close>.
\<close>

definition on_close :: "Env \<Rightarrow> ws \<Rightarrow> SignalingServer \<Rightarrow> SignalingServer" where
  "on_close e w s = handleDisconnect e w (s\<lparr>readyState := (readyState s)(w := CLOSED)\<rparr>)"

definition on_connection :: "ws \<Rightarrow> SignalingServer \<Rightarrow> SignalingServer" where
  "on_connection w s = s\<lparr>readyState := (readyState s)(w := OPEN)\<rparr>"

datatype Event = Connection ws | Message ws Frame | Close ws

fun step :: "Env \<Rightarrow> Event \<Rightarrow> SignalingServer \<Rightarrow> SignalingServer" where
  "step e (Connection w) s = on_connection w s"
| "step e (Message w f) s = on_message e w f s"
| "step e (Close w) s = on_close e w s"

definition run :: "Env \<Rightarrow> Event list \<Rightarrow> SignalingServer \<Rightarrow> SignalingServer" where
  "run e evs s = fold (step e) evs s"

text \<open>The server after its constructor: empty maps, no call of \<open>send\<close>, no socket yet.\<close>

definition initial :: SignalingServer where
  "initial = \<lparr>clients = [], devices = [], readyState = (\<lambda>w. CONNECTING),
              sends = [], sent_at = [], ticks = 0, draws = 0\<rparr>"

section \<open>What the statements speak about\<close>

text \<open>The calls of \<open>send\<close> between two states.\<close>

definition new_sends :: "SignalingServer \<Rightarrow> SignalingServer \<Rightarrow> Sent list" where
  "new_sends s s' = drop (length (sends s)) (sends s')"

text \<open>The moments of the calls of \<open>send\<close> between two states.\<close>

definition new_sent_at :: "SignalingServer \<Rightarrow> SignalingServer \<Rightarrow> nat list" where
  "new_sent_at s s' = drop (length (sent_at s)) (sent_at s')"

text \<open>The calls of \<open>send\<close> between two states, each with its moment.\<close>

definition send_calls :: "SignalingServer \<Rightarrow> SignalingServer \<Rightarrow> (Sent \<times> nat) list" where
  "send_calls s s' = zip (new_sends s s') (new_sent_at s s')"

text \<open>What a call \<open>send(w, x)\<close> in state \<open>s\<close> adds to the trace.\<close>

definition attempt :: "SignalingServer \<Rightarrow> ws \<Rightarrow> Outbound \<Rightarrow> Sent" where
  "attempt s w x = (if readyState s w = OPEN then Written w x else Dropped w x)"

text \<open>The message of a call, whether it was written or dropped.\<close>

fun message_of :: "Sent \<Rightarrow> Outbound" where
  "message_of (Written w x) = x"
| "message_of (Dropped w x) = x"

text \<open>The entries a broadcast addresses: those of type \<open>'client'\<close>, in the map's order.\<close>

definition client_entries :: "SignalingServer \<Rightarrow> (string option \<times> Client) list" where
  "client_entries s = filter (\<lambda>(k, c). c_type c = client) (clients s)"

text \<open>The \<open>Device\<close> that \<open>handleRegisterHost\<close> builds from a frame in state \<open>s\<close>.\<close>

definition host_device :: "Env \<Rightarrow> SignalingMessage \<Rightarrow> SignalingServer \<Rightarrow> Device" where
  "host_device e m s = \<lparr>deviceId = m_deviceId m, deviceName = m_deviceName m,
     platform = m_platform m, online = True, lastSeen = clock e (ticks s)\<rparr>"

text \<open>The event is a REGISTER_HOST frame for the id \<open>k\<close>.\<close>

fun registers_host :: "string option \<Rightarrow> Event \<Rightarrow> bool" where
  "registers_host k (Message w (JsonObject m)) =
     (m_type m = Some REGISTER_HOST \<and> m_deviceId m = k)"
| "registers_host k ev = False"

text \<open>Every device is stored under its own \<open>deviceId\<close>.\<close>

definition devices_keyed :: "SignalingServer \<Rightarrow> bool" where
  "devices_keyed s = list_all (\<lambda>(k, d). deviceId d = k) (devices s)"

text \<open>
  The timestamp of a message at the moment of its sending. The message \<open>x\<close> is passed to
  \<open>send\<close> when \<open>Date.now()\<close> has been called \<open>n\<close> times, \<open>lo\<close> of them before the event
  being handled: the timestamp of \<open>x\<close> is what the latest of these calls returned, and
  that call was made while the event was handled.
\<close>

definition stamped_at_send :: "Env \<Rightarrow> nat \<Rightarrow> Outbound \<Rightarrow> nat \<Rightarrow> bool" where
  "stamped_at_send e lo x n = (lo < n \<and> timestamp x = Some (clock e (n - 1)))"

text \<open>
  Successive calls of \<open>send\<close>, each with its moment. A call whose message has the type
  of the message of the call before it (a broadcast going to its next recipient) passes
  that same message, and the clock has not been read in between; a call whose message
  has another type is made after the clock has been read again.
\<close>

fun one_reading_each :: "(Sent \<times> nat) list \<Rightarrow> bool" where
  "one_reading_each ((a, n) # (b, n') # rest) =
     ((if msg_type (message_of b) = msg_type (message_of a)
       then message_of b = message_of a \<and> n' = n else n < n')
      \<and> one_reading_each ((b, n') # rest))"
| "one_reading_each [p] = True"
| "one_reading_each [] = True"

text \<open>The message is the frame of the event, of one of the three relayed types.\<close>

definition relayed :: "Event \<Rightarrow> Outbound \<Rightarrow> bool" where
  "relayed ev x =
     (case x of
        Forwarded m \<Rightarrow>
          (\<exists>w. ev = Message w (JsonObject m))
          \<and> (m_type m = Some OFFER \<or> m_type m = Some ANSWER \<or> m_type m = Some ICE_CANDIDATE)
      | _ \<Rightarrow> False)"

text \<open>The message is one of the object literals the handlers build.\<close>

definition built_by_server :: "Outbound \<Rightarrow> bool" where
  "built_by_server x = (case x of Forwarded m \<Rightarrow> False | _ \<Rightarrow> True)"

text \<open>
  The invariant of the spec's data model: every entry of \<open>devices\<close> is online, is stored
  under its own id, and \<open>clients\<close> holds under that id a host carrying a device; the
  keys of \<open>clients\<close> are pairwise distinct (as they are in a \<open>Map\<close>), so that host is
  the only entry with the id.
\<close>

definition registry_inv :: "SignalingServer \<Rightarrow> bool" where
  "registry_inv s =
     (distinct (map fst (clients s))
      \<and> list_all (\<lambda>(k, d). online d \<and> deviceId d = k
            \<and> (case Map_get (clients s) k of
                  Some c \<Rightarrow> c_type c = host \<and> c_device c \<noteq> None
                | None \<Rightarrow> False)) (devices s))"

text \<open>The event is a REGISTER_CLIENT whose id is, in state \<open>s\<close>, the key of a device.\<close>

fun client_takes_host_id :: "Env \<Rightarrow> Event \<Rightarrow> SignalingServer \<Rightarrow> bool" where
  "client_takes_host_id e (Message w (JsonObject m)) s =
     (m_type m = Some REGISTER_CLIENT
      \<and> Map_get (devices s) (Some (fst (clientId_or_uuid e m s))) \<noteq> None)"
| "client_takes_host_id e ev s = False"

text \<open>No event of the list, run from \<open>s\<close>, is a REGISTER_CLIENT under the id of a device.\<close>

fun no_takeover :: "Env \<Rightarrow> Event list \<Rightarrow> SignalingServer \<Rightarrow> bool" where
  "no_takeover e [] s = True"
| "no_takeover e (ev # evs) s =
     (\<not> client_takes_host_id e ev s \<and> no_takeover e evs (step e ev s))"

section \<open>A concrete environment and the frames of the spec's scenario\<close>

definition demo_env :: Env where
  "demo_env = \<lparr>clock = (\<lambda>n. 1000 + n),
                uuid = (\<lambda>n. ''uuid-'' @ replicate (Suc n) (CHR ''x''))\<rparr>"

definition no_fields :: SignalingMessage where
  "no_fields = \<lparr>m_type = None, m_timestamp = None, m_deviceId = None, m_deviceName = None,
     m_platform = None, m_clientId = None, m_targetDeviceId = None, m_from = None,
     m_to = None, m_offer = None, m_answer = None, m_candidate = None\<rparr>"

definition register_h1 :: SignalingMessage where
  "register_h1 = no_fields\<lparr>m_type := Some REGISTER_HOST, m_timestamp := Some 1,
     m_deviceId := Some ''h1'', m_deviceName := Some ''Office-PC'', m_platform := Some ''macos''\<rparr>"

definition register_h2 :: SignalingMessage where
  "register_h2 = no_fields\<lparr>m_type := Some REGISTER_HOST, m_timestamp := Some 1,
     m_deviceId := Some ''h2'', m_deviceName := Some ''Laptop'', m_platform := Some ''win32''\<rparr>"

definition register_c1 :: SignalingMessage where
  "register_c1 = no_fields\<lparr>m_type := Some REGISTER_CLIENT, m_timestamp := Some 2,
     m_clientId := Some ''c1''\<rparr>"

definition register_client_h1 :: SignalingMessage where
  "register_client_h1 = no_fields\<lparr>m_type := Some REGISTER_CLIENT, m_timestamp := Some 2,
     m_clientId := Some ''h1''\<rparr>"

definition register_anonymous :: SignalingMessage where
  "register_anonymous = no_fields\<lparr>m_type := Some REGISTER_CLIENT, m_timestamp := Some 4\<rparr>"

definition get_devices_msg :: SignalingMessage where
  "get_devices_msg = no_fields\<lparr>m_type := Some GET_DEVICES, m_timestamp := Some 7\<rparr>"

definition connect_c1_h1 :: SignalingMessage where
  "connect_c1_h1 = no_fields\<lparr>m_type := Some CONNECT_REQUEST, m_timestamp := Some 3,
     m_targetDeviceId := Some ''h1'', m_clientId := Some ''c1''\<rparr>"

definition connect_c1_h9 :: SignalingMessage where
  "connect_c1_h9 = no_fields\<lparr>m_type := Some CONNECT_REQUEST, m_timestamp := Some 3,
     m_targetDeviceId := Some ''h9'', m_clientId := Some ''c1''\<rparr>"

definition offer_h1_c1 :: SignalingMessage where
  "offer_h1_c1 = no_fields\<lparr>m_type := Some OFFER, m_timestamp := Some 5,
     m_from := Some ''h1'', m_to := Some ''c1'', m_offer := Some ''sdp''\<rparr>"

definition offer_h1_c9 :: SignalingMessage where
  "offer_h1_c9 = no_fields\<lparr>m_type := Some OFFER, m_timestamp := Some 5,
     m_from := Some ''h1'', m_to := Some ''c9'', m_offer := Some ''sdp''\<rparr>"

definition disconnect_msg :: SignalingMessage where
  "disconnect_msg = no_fields\<lparr>m_type := Some DISCONNECT, m_timestamp := Some 9\<rparr>"

text \<open>Host \<open>h1\<close> registered on socket 2, client \<open>c1\<close> on socket 3.\<close>

definition host_and_client :: SignalingServer where
  "host_and_client = run demo_env [Connection 2, Message 2 (JsonObject register_h1),
      Connection 3, Message 3 (JsonObject register_c1)] initial"

text \<open>The state after the host's socket 2 has closed.\<close>

definition host_closed :: SignalingServer where
  "host_closed = step demo_env (Close 2) host_and_client"

text \<open>A third socket, 4, connects to the server holding host \<open>h1\<close> and client \<open>c1\<close>.\<close>

definition three_sockets :: SignalingServer where
  "three_sockets = on_connection 4 host_and_client"

definition two_hosts_one_socket :: SignalingServer where
  "two_hosts_one_socket = run demo_env [Connection 2, Message 2 (JsonObject register_h1),
      Message 2 (JsonObject register_h2)] initial"

text \<open>
  Socket 2 registers the hosts \<open>h1\<close> and \<open>h2\<close>, then socket 3 registers the client \<open>c1\<close>.
\<close>

definition two_hosts_and_client :: SignalingServer where
  "two_hosts_and_client = run demo_env [Connection 2, Message 2 (JsonObject register_h1),
      Message 2 (JsonObject register_h2), Connection 3, Message 3 (JsonObject register_c1)]
      initial"

text \<open>
  Host \<open>h1\<close> registers on socket 2, then socket 3 registers as a client under the id
  \<open>h1\<close>.
\<close>

definition client_took_h1 :: SignalingServer where
  "client_took_h1 = run demo_env [Connection 2, Message 2 (JsonObject register_h1),
      Connection 3, Message 3 (JsonObject register_client_h1)] initial"

definition register_c2 :: SignalingMessage where
  "register_c2 = no_fields\<lparr>m_type := Some REGISTER_CLIENT, m_timestamp := Some 2,
     m_clientId := Some ''c2''\<rparr>"

definition connect_c1_h2 :: SignalingMessage where
  "connect_c1_h2 = no_fields\<lparr>m_type := Some CONNECT_REQUEST, m_timestamp := Some 3,
     m_targetDeviceId := Some ''h2'', m_clientId := Some ''c1''\<rparr>"

definition connect_c1_c1 :: SignalingMessage where
  "connect_c1_c1 = no_fields\<lparr>m_type := Some CONNECT_REQUEST, m_timestamp := Some 3,
     m_targetDeviceId := Some ''c1'', m_clientId := Some ''c1''\<rparr>"

definition offer_c1_h2 :: SignalingMessage where
  "offer_c1_h2 = no_fields\<lparr>m_type := Some OFFER, m_timestamp := Some 5,
     m_from := Some ''c1'', m_to := Some ''h2'', m_offer := Some ''sdp''\<rparr>"

text \<open>
  Socket 2 registers the hosts \<open>h1\<close> and \<open>h2\<close> and closes, which removes \<open>h1\<close> only;
  then client \<open>c1\<close> registers on socket 3. The entry \<open>h2\<close> is left with a closed socket.
\<close>

definition stale_host :: SignalingServer where
  "stale_host = run demo_env [Connection 2, Message 2 (JsonObject register_h1),
      Message 2 (JsonObject register_h2), Close 2,
      Connection 3, Message 3 (JsonObject register_c1)] initial"

text \<open>
  Host \<open>h1\<close> registers on socket 2; socket 3 registers the clients \<open>c1\<close> and \<open>c2\<close> and
  closes, which removes \<open>c1\<close> only. The entry \<open>c2\<close> is left with a closed socket.
\<close>

definition stale_client :: SignalingServer where
  "stale_client = run demo_env [Connection 2, Message 2 (JsonObject register_h1),
      Connection 3, Message 3 (JsonObject register_c1), Message 3 (JsonObject register_c2),
      Close 3] initial"

section \<open>Maps and lists\<close>

lemma Map_get_Map_set: "Map_get (Map_set k v ps) k' = (if k' = k then Some v else Map_get ps k')"
  by (induction ps) (auto simp: Map_get_def)

lemma Map_get_Map_delete:
  "Map_get (Map_delete k ps) k' = (if k' = k then None else Map_get ps k')"
  by (induction ps) (auto simp: Map_get_def Map_delete_def)

lemma set_Map_set: "set (Map_set k v ps) \<subseteq> insert (k, v) (set ps)"
  by (induction ps) (auto split: if_splits)

lemma set_Map_delete: "set (Map_delete k ps) = {p \<in> set ps. fst p \<noteq> k}"
  by (auto simp: Map_delete_def)

lemma Map_get_distinct: "distinct (map fst ps) \<Longrightarrow> (k, v) \<in> set ps \<Longrightarrow> Map_get ps k = Some v"
  by (simp add: Map_get_def)

lemma Map_get_member: "(k, v) \<in> set ps \<Longrightarrow> Map_get ps k \<noteq> None"
  using image_eqI [of k fst "(k, v)" "set ps"] by (simp add: Map_get_def map_of_eq_None_iff)

lemma Map_delete_remove1:
  "distinct (map fst ps) \<Longrightarrow> (k, v) \<in> set ps \<Longrightarrow> Map_delete k ps = remove1 (k, v) ps"
proof (induction ps)
  case Nil
  then show ?case by simp
next
  case (Cons p ps)
  obtain k' v' where p: "p = (k', v')" by (cases p)
  show ?case
  proof (cases "k' = k")
    case True
    with Cons.prems p have v: "v' = v" and notin: "k \<notin> fst ` set ps"
      by (auto simp: image_iff)
    from notin have "filter (\<lambda>(k', v). k' \<noteq> k) ps = ps"
      by (auto simp: filter_id_conv image_iff)
    with True v p show ?thesis by (simp add: Map_delete_def)
  next
    case False
    with Cons p show ?thesis by (auto simp: Map_delete_def)
  qed
qed

lemma keys_Map_set:
  "map fst (Map_set k v ps) = (if k \<in> fst ` set ps then map fst ps else map fst ps @ [k])"
  by (induction ps) force+

lemma distinct_Map_set: "distinct (map fst ps) \<Longrightarrow> distinct (map fst (Map_set k v ps))"
  by (simp add: keys_Map_set)

lemma distinct_Map_delete: "distinct (map fst ps) \<Longrightarrow> distinct (map fst (Map_delete k ps))"
  by (induction ps) (auto simp: Map_delete_def)

lemma list_all_Map_set:
  "list_all P ps \<Longrightarrow> P (k, v) \<Longrightarrow> list_all P (Map_set k v ps)"
  by (induction ps) auto

lemma list_all_Map_delete: "list_all P ps \<Longrightarrow> list_all P (Map_delete k ps)"
  by (induction ps) (auto simp: Map_delete_def)

lemma find_filter_single:
  "find P xs = Some x \<Longrightarrow> length (filter P xs) \<le> 1 \<Longrightarrow> filter P xs = [x]"
proof (induction xs)
  case Nil
  then show ?case by simp
next
  case (Cons a xs)
  then show ?case by (auto split: if_splits)
qed

lemma find_None_filter: "find P xs = None \<longleftrightarrow> filter P xs = []"
  by (induction xs) auto

lemma find_Some_set: "find P xs = Some x \<Longrightarrow> x \<in> set xs \<and> P x"
  by (induction xs) (auto split: if_splits)

lemma keyed_excluded_aux:
  "list_all (\<lambda>(k', d). deviceId d = k') ps \<Longrightarrow> map_of ps k = None \<Longrightarrow>
   list_all (\<lambda>d. deviceId d \<noteq> k) (map snd ps)"
  by (induction ps) (auto split: if_splits)

section \<open>What each handler does to the state\<close>

lemma send_fields [simp]:
  "clients (send w x s) = clients s"
  "devices (send w x s) = devices s"
  "readyState (send w x s) = readyState s"
  "ticks (send w x s) = ticks s"
  "draws (send w x s) = draws s"
  by (simp_all add: send_def)

lemma send_eq:
  "send w x s = s\<lparr>sends := sends s @ [attempt s w x], sent_at := sent_at s @ [ticks s]\<rparr>"
  by (simp add: send_def attempt_def)

lemma attempt_frame [simp]:
  "attempt (s\<lparr>sends := xs\<rparr>) = attempt s"
  "attempt (s\<lparr>sent_at := ns\<rparr>) = attempt s"
  "attempt (s\<lparr>ticks := n\<rparr>) = attempt s"
  "attempt (s\<lparr>draws := n\<rparr>) = attempt s"
  "attempt (s\<lparr>clients := cs\<rparr>) = attempt s"
  "attempt (s\<lparr>devices := ds\<rparr>) = attempt s"
  by (simp_all add: attempt_def fun_eq_iff)

lemma attempt_open: "readyState s w = OPEN \<Longrightarrow> attempt s w x = Written w x"
  by (simp add: attempt_def)

lemma attempt_not_open: "readyState s w \<noteq> OPEN \<Longrightarrow> attempt s w x = Dropped w x"
  by (simp add: attempt_def)

lemma message_of_attempt [simp]: "message_of (attempt s w x) = x"
  by (simp add: attempt_def)

lemma fold_send:
  "fold (\<lambda>(k, c) st. if c_type c = client then send (c_ws c) x st else st) cs s =
   s\<lparr>sends := sends s @ map (\<lambda>(k, c). attempt s (c_ws c) x)
        (filter (\<lambda>(k, c). c_type c = client) cs),
     sent_at := sent_at s @ map (\<lambda>(k, c). ticks s)
        (filter (\<lambda>(k, c). c_type c = client) cs)\<rparr>"
proof (induction cs arbitrary: s)
  case Nil
  show ?case by simp
next
  case (Cons p cs)
  obtain k c where p: "p = (k, c)" by (cases p)
  show ?case
    by (simp add: p Cons.IH send_eq)
qed

lemma broadcastDeviceStatus_eq:
  "broadcastDeviceStatus e d st s =
   s\<lparr>ticks := Suc (ticks s),
     sends := sends s @ map (\<lambda>(k, c). attempt s (c_ws c) (DeviceStatus st (clock e (ticks s)) d))
                (client_entries s),
     sent_at := sent_at s @ map (\<lambda>(k, c). Suc (ticks s)) (client_entries s)\<rparr>"
  by (simp add: broadcastDeviceStatus_def Date_now_def fold_send client_entries_def)

lemma sendError_eq:
  "sendError e w err s =
   s\<lparr>ticks := Suc (ticks s),
     sends := sends s @ [attempt s w (ErrorMsg (clock e (ticks s)) err None)],
     sent_at := sent_at s @ [Suc (ticks s)]\<rparr>"
  by (simp add: sendError_def Date_now_def send_eq)

lemma handleRegisterHost_eq:
  "handleRegisterHost e w m s =
   (let d = host_device e m s;
        c = \<lparr>c_id = m_deviceId m, c_ws = w, c_type = host, c_device = Some d\<rparr>;
        s' = s\<lparr>clients := Map_set (m_deviceId m) c (clients s),
               devices := Map_set (m_deviceId m) d (devices s)\<rparr>
    in s'\<lparr>ticks := Suc (Suc (Suc (ticks s))),
          sends := sends s
            @ attempt s w (AuthSuccess (clock e (Suc (ticks s))) (m_deviceId m))
            # map (\<lambda>(k, c). attempt s (c_ws c)
                               (DeviceStatus DEVICE_ONLINE (clock e (Suc (Suc (ticks s)))) d))
                (client_entries s'),
          sent_at := sent_at s
            @ Suc (Suc (ticks s))
            # map (\<lambda>(k, c). Suc (Suc (Suc (ticks s)))) (client_entries s')\<rparr>)"
  by (simp add: handleRegisterHost_def Date_now_def send_eq broadcastDeviceStatus_eq
      client_entries_def host_device_def Let_def)

lemma clientId_or_uuid_cases:
  "clientId_or_uuid e m s =
   (if m_clientId m = None \<or> m_clientId m = Some []
    then (uuid e (draws s), s\<lparr>draws := Suc (draws s)\<rparr>)
    else (the (m_clientId m), s))"
  by (simp add: clientId_or_uuid_def uuidv4_def split: option.splits list.splits)

lemma handleRegisterClient_eq:
  "handleRegisterClient e w m s =
   (let (i, s1) = clientId_or_uuid e m s
    in s1\<lparr>clients := Map_set (Some i) \<lparr>c_id = Some i, c_ws = w, c_type = client, c_device = None\<rparr> (clients s),
          ticks := Suc (ticks s),
          sends := sends s @ [attempt s w (AuthSuccess (clock e (ticks s)) (Some i))],
          sent_at := sent_at s @ [Suc (ticks s)]\<rparr>)"
  by (simp add: handleRegisterClient_def Date_now_def send_eq clientId_or_uuid_def uuidv4_def Let_def
      split: option.splits list.splits)

lemma handleRegisterClient_frame:
  "devices (handleRegisterClient e w m s) = devices s"
  "readyState (handleRegisterClient e w m s) = readyState s"
  "ticks (handleRegisterClient e w m s) = Suc (ticks s)"
  by (simp_all add: handleRegisterClient_eq clientId_or_uuid_def uuidv4_def
      split: option.splits list.splits)

lemma handleGetDevices_eq:
  "handleGetDevices e w s =
   s\<lparr>ticks := Suc (ticks s),
     sends := sends s @ [attempt s w (DeviceList (clock e (ticks s)) (map snd (devices s)))],
     sent_at := sent_at s @ [Suc (ticks s)]\<rparr>"
  by (simp add: handleGetDevices_def Date_now_def send_eq)

lemma handleConnectRequest_frame:
  "clients (handleConnectRequest e w m s) = clients s"
  "devices (handleConnectRequest e w m s) = devices s"
  "readyState (handleConnectRequest e w m s) = readyState s"
  "draws (handleConnectRequest e w m s) = draws s"
  by (simp_all add: handleConnectRequest_def sendError_eq Date_now_def split: option.splits)

lemma handleConnectRequest_host:
  "Map_get (clients s) (m_targetDeviceId m) = Some tc \<Longrightarrow> c_type tc = host \<Longrightarrow>
   handleConnectRequest e w m s =
   s\<lparr>ticks := Suc (Suc (ticks s)),
     sends := sends s @
       [attempt s (c_ws tc)
          (ConnectRequest (clock e (ticks s)) (m_targetDeviceId m) (m_clientId m)),
        attempt s w (ConnectionAccepted (clock e (Suc (ticks s))) (m_targetDeviceId m))],
     sent_at := sent_at s @ [Suc (ticks s), Suc (Suc (ticks s))]\<rparr>"
  by (simp add: handleConnectRequest_def Date_now_def send_eq Let_def)

lemma forward_frame:
  "clients (handleOffer m s) = clients s" "devices (handleOffer m s) = devices s"
  "readyState (handleOffer m s) = readyState s" "draws (handleOffer m s) = draws s"
  "ticks (handleOffer m s) = ticks s"
  "clients (handleAnswer m s) = clients s" "devices (handleAnswer m s) = devices s"
  "readyState (handleAnswer m s) = readyState s" "draws (handleAnswer m s) = draws s"
  "ticks (handleAnswer m s) = ticks s"
  "clients (handleIceCandidate m s) = clients s" "devices (handleIceCandidate m s) = devices s"
  "readyState (handleIceCandidate m s) = readyState s" "draws (handleIceCandidate m s) = draws s"
  "ticks (handleIceCandidate m s) = ticks s"
  by (simp_all add: handleOffer_def handleAnswer_def handleIceCandidate_def send_eq
      split: option.splits)

lemma handleDisconnect_eq:
  "handleDisconnect e w s =
   (case find (\<lambda>(k, c). c_ws c = w) (clients s) of
      None \<Rightarrow> s
    | Some (k, c) \<Rightarrow>
        (case (c_type c, c_device c) of
           (host, Some d) \<Rightarrow>
             s\<lparr>clients := Map_delete k (clients s), devices := Map_delete k (devices s),
               ticks := Suc (Suc (ticks s)),
               sends := sends s @ map (\<lambda>(k', c'). attempt s (c_ws c')
                   (DeviceStatus DEVICE_OFFLINE (clock e (Suc (ticks s)))
                     (d\<lparr>online := False, lastSeen := clock e (ticks s)\<rparr>)))
                 (client_entries s),
               sent_at := sent_at s @ map (\<lambda>(k', c'). Suc (Suc (ticks s))) (client_entries s)\<rparr>
         | _ \<Rightarrow> s\<lparr>clients := Map_delete k (clients s)\<rparr>))"
  by (simp add: handleDisconnect_def Date_now_def broadcastDeviceStatus_eq client_entries_def Let_def
      split: option.splits prod.splits ClientType.splits)

lemma clients_handleDisconnect:
  "clients (handleDisconnect e w s) =
   (case find (\<lambda>(k, c). c_ws c = w) (clients s) of
      None \<Rightarrow> clients s | Some (k, c) \<Rightarrow> Map_delete k (clients s))"
  by (simp add: handleDisconnect_eq split: option.splits prod.splits ClientType.splits)

lemma devices_handleDisconnect:
  "devices (handleDisconnect e w s) =
   (case find (\<lambda>(k, c). c_ws c = w) (clients s) of
      None \<Rightarrow> devices s
    | Some (k, c) \<Rightarrow>
        if c_type c = host \<and> c_device c \<noteq> None then Map_delete k (devices s) else devices s)"
  by (auto simp: handleDisconnect_eq split: option.splits prod.splits ClientType.splits)

lemma handleDisconnect_absent:
  "find (\<lambda>(k, c). c_ws c = w) (clients s) = None \<Longrightarrow> handleDisconnect e w s = s"
  by (simp add: handleDisconnect_def)

lemma find_after_handleDisconnect:
  assumes "length (filter (\<lambda>(k, c). c_ws c = w) (clients s)) \<le> 1"
  shows "find (\<lambda>(k, c). c_ws c = w) (clients (handleDisconnect e w s)) = None"
proof (cases "find (\<lambda>(k, c). c_ws c = w) (clients s)")
  case None
  then show ?thesis by (simp add: clients_handleDisconnect)
next
  case (Some p)
  obtain k c where p: "p = (k, c)" by (cases p)
  from find_filter_single [OF Some assms] p
  have single: "filter (\<lambda>(k, c). c_ws c = w) (clients s) = [(k, c)]" by simp
  have "filter (\<lambda>(k, c). c_ws c = w) (Map_delete k (clients s)) =
        filter (\<lambda>(k', v). k' \<noteq> k) (filter (\<lambda>(k, c). c_ws c = w) (clients s))"
    unfolding Map_delete_def filter_filter by (rule filter_cong) auto
  with single have "filter (\<lambda>(k, c). c_ws c = w) (Map_delete k (clients s)) = []"
    by simp
  with Some p show ?thesis
    by (simp add: clients_handleDisconnect find_None_filter)
qed

lemma find_after_first_of_many:
  assumes d: "distinct (map fst (clients s))"
      and many: "1 < length (filter (\<lambda>(k, c). c_ws c = w) (clients s))"
  shows "find (\<lambda>(k, c). c_ws c = w) (clients (handleDisconnect e w s)) \<noteq> None"
proof -
  let ?P = "\<lambda>(k, c). c_ws c = w"
  from many have "filter ?P (clients s) \<noteq> []" by auto
  then obtain p where f: "find ?P (clients s) = Some p"
    by (cases "find ?P (clients s)") (auto simp: find_None_filter)
  obtain k c where p: "p = (k, c)" by (cases p)
  from find_Some_set [OF f] p have mem: "(k, c) \<in> set (clients s)" and P: "?P (k, c)"
    by auto
  have cl: "clients (handleDisconnect e w s) = remove1 (k, c) (clients s)"
    using f p Map_delete_remove1 [OF d mem] by (simp add: clients_handleDisconnect)
  have "filter ?P (remove1 (k, c) (clients s)) = remove1 (k, c) (filter ?P (clients s))"
    by (rule filter_remove1)
  moreover have "(k, c) \<in> set (filter ?P (clients s))"
    using mem P by simp
  ultimately have "length (filter ?P (clients (handleDisconnect e w s))) =
      length (filter ?P (clients s)) - 1"
    by (simp add: cl length_remove1)
  with many have "filter ?P (clients (handleDisconnect e w s)) \<noteq> []"
    by auto
  then show ?thesis by (simp add: find_None_filter)
qed

lemma clients_shrink_handleDisconnect:
  assumes "find (\<lambda>(k, c). c_ws c = w) (clients s) \<noteq> None"
  shows "length (clients (handleDisconnect e w s)) < length (clients s)"
proof -
  from assms obtain k c where f: "find (\<lambda>(k, c). c_ws c = w) (clients s) = Some (k, c)"
    by auto
  from find_Some_set [OF f] have mem: "(k, c) \<in> set (clients s)" by simp
  have "length (filter (\<lambda>(k', v). k' \<noteq> k) (clients s)) < length (clients s)"
    by (rule length_filter_less [OF mem]) simp
  with f show ?thesis by (simp add: clients_handleDisconnect Map_delete_def)
qed

lemma second_run_changes:
  assumes d: "distinct (map fst (clients s))"
      and many: "1 < length (filter (\<lambda>(k, c). c_ws c = w) (clients s))"
  shows "length (clients (handleDisconnect e w (handleDisconnect e w s)))
           < length (clients (handleDisconnect e w s))"
  by (rule clients_shrink_handleDisconnect [OF find_after_first_of_many [OF d many]])

lemma clients_handleDisconnect_readyState:
  "clients (handleDisconnect e w (s\<lparr>readyState := r\<rparr>)) = clients (handleDisconnect e w s)"
  by (simp add: clients_handleDisconnect split: option.splits)

lemma readyState_handleDisconnect: "readyState (handleDisconnect e w s) = readyState s"
  by (simp add: handleDisconnect_eq split: option.splits prod.splits ClientType.splits)

lemma devices_handleMessage:
  "devices (handleMessage e w m s) =
   (if m_type m = Some REGISTER_HOST
    then Map_set (m_deviceId m) (host_device e m s) (devices s)
    else if m_type m = Some DISCONNECT then devices (handleDisconnect e w s)
    else devices s)"
  by (simp add: handleMessage_def handleRegisterHost_eq handleRegisterClient_frame
      handleGetDevices_eq handleConnectRequest_frame forward_frame Let_def
      split: option.splits MessageType.splits)

lemma draws_handleRegisterClient:
  "draws (handleRegisterClient e w m s) =
   (if m_clientId m = None \<or> m_clientId m = Some [] then Suc (draws s) else draws s)"
  by (simp add: handleRegisterClient_eq clientId_or_uuid_cases)

lemma draws_handleDisconnect: "draws (handleDisconnect e w s) = draws s"
  by (simp add: handleDisconnect_eq split: option.splits prod.splits ClientType.splits)

lemma draws_handleMessage: "draws s \<le> draws (handleMessage e w m s)"
  by (simp add: handleMessage_def handleRegisterHost_eq draws_handleRegisterClient
      handleGetDevices_eq handleConnectRequest_frame forward_frame draws_handleDisconnect Let_def
      split: option.splits MessageType.splits)

lemma run_Nil [simp]: "run e [] s = s"
  by (simp add: run_def)

lemma run_Cons [simp]: "run e (ev # evs) s = run e evs (step e ev s)"
  by (simp add: run_def)

lemma run_append: "run e (evs @ evs') s = run e evs' (run e evs s)"
  by (simp add: run_def)

lemma new_sends_self [simp]: "new_sends s s = []"
  by (simp add: new_sends_def)

lemma new_sends_append: "sends s' = sends s @ xs \<Longrightarrow> new_sends s s' = xs"
  by (simp add: new_sends_def)

section \<open>What every event preserves\<close>

lemma devices_step:
  "devices (step e ev s) = devices s
   \<or> (\<exists>w m. ev = Message w (JsonObject m) \<and> m_type m = Some REGISTER_HOST
         \<and> devices (step e ev s) = Map_set (m_deviceId m) (host_device e m s) (devices s))
   \<or> (\<exists>k. devices (step e ev s) = Map_delete k (devices s))"
proof (cases ev)
  case (Connection w)
  then show ?thesis by (simp add: on_connection_def)
next
  case (Message w f)
  show ?thesis
  proof (cases f)
    case (JsonObject m)
    consider "m_type m = Some REGISTER_HOST" | "m_type m = Some DISCONNECT"
      | "m_type m \<noteq> Some REGISTER_HOST" "m_type m \<noteq> Some DISCONNECT" by blast
    then show ?thesis
    proof cases
      case 1
      then show ?thesis
        using Message JsonObject
        by (simp add: on_message_def devices_handleMessage)
    next
      case 2
      then show ?thesis
        using Message JsonObject
        by (auto simp: on_message_def devices_handleMessage devices_handleDisconnect
            split: option.splits)
    next
      case 3
      then show ?thesis
        using Message JsonObject by (simp add: on_message_def devices_handleMessage)
    qed
  qed (simp_all add: Message on_message_def sendError_eq)
next
  case (Close w)
  then show ?thesis
    by (auto simp: on_close_def devices_handleDisconnect split: option.splits)
qed

lemma devices_keyed_step: "devices_keyed s \<Longrightarrow> devices_keyed (step e ev s)"
  using devices_step [of e ev s]
  by (auto simp: devices_keyed_def list_all_Map_set list_all_Map_delete host_device_def)

lemma devices_keyed_run: "devices_keyed s \<Longrightarrow> devices_keyed (run e evs s)"
  by (induction evs arbitrary: s) (simp_all add: devices_keyed_step)

lemma devices_keyed_reachable: "devices_keyed (run e evs initial)"
  by (rule devices_keyed_run) (simp add: devices_keyed_def initial_def)

lemma devices_absent_step:
  "Map_get (devices s) k = None \<Longrightarrow> \<not> registers_host k ev \<Longrightarrow>
   Map_get (devices (step e ev s)) k = None"
  using devices_step [of e ev s]
  by (auto simp: Map_get_Map_set Map_get_Map_delete)

lemma devices_absent_run:
  "Map_get (devices s) k = None \<Longrightarrow> list_all (\<lambda>ev. \<not> registers_host k ev) evs \<Longrightarrow>
   Map_get (devices (run e evs s)) k = None"
  by (induction evs arbitrary: s) (simp_all add: devices_absent_step)

lemma keyed_absent_excluded:
  "devices_keyed s \<Longrightarrow> Map_get (devices s) k = None \<Longrightarrow>
   list_all (\<lambda>d. deviceId d \<noteq> k) (map snd (devices s))"
  by (simp add: devices_keyed_def Map_get_def keyed_excluded_aux)

lemma draws_step: "draws s \<le> draws (step e ev s)"
proof (cases ev)
  case (Connection w)
  then show ?thesis by (simp add: on_connection_def)
next
  case (Message w f)
  then show ?thesis
    by (cases f) (simp_all add: on_message_def sendError_eq draws_handleMessage)
next
  case (Close w)
  then show ?thesis by (simp add: on_close_def draws_handleDisconnect)
qed

lemma draws_run: "draws s \<le> draws (run e evs s)"
proof (induction evs arbitrary: s)
  case Nil
  show ?case by simp
next
  case (Cons ev evs)
  have "draws s \<le> draws (step e ev s)" by (rule draws_step)
  also have "\<dots> \<le> draws (run e evs (step e ev s))" by (rule Cons.IH)
  finally show ?case by simp
qed

lemma distinct_clients_step:
  "distinct (map fst (clients s)) \<Longrightarrow> distinct (map fst (clients (step e ev s)))"
proof (cases ev)
  case (Message w f)
  assume d: "distinct (map fst (clients s))"
  show ?thesis
  proof (cases f)
    case (JsonObject m)
    have st: "step e ev s = handleMessage e w m s"
      using Message JsonObject by (simp add: on_message_def)
    show ?thesis
      unfolding st handleMessage_def using d
      by (simp add: handleRegisterHost_eq handleRegisterClient_eq clientId_or_uuid_cases
          handleGetDevices_eq handleConnectRequest_frame forward_frame clients_handleDisconnect
          distinct_Map_set distinct_Map_delete Let_def
          split: option.splits MessageType.splits prod.splits)
  qed (use d Message in \<open>simp_all add: on_message_def sendError_eq\<close>)
qed (simp_all add: on_connection_def on_close_def clients_handleDisconnect distinct_Map_delete
      split: option.splits prod.splits)

lemma distinct_clients_run:
  "distinct (map fst (clients (run e evs initial)))"
proof -
  have "distinct (map fst (clients s)) \<Longrightarrow> distinct (map fst (clients (run e evs s)))" for s
    by (induction evs arbitrary: s) (simp_all add: distinct_clients_step)
  then show ?thesis by (simp add: initial_def)
qed

lemma registry_inv_iff:
  "registry_inv s \<longleftrightarrow>
     distinct (map fst (clients s))
     \<and> (\<forall>(k, d) \<in> set (devices s). online d \<and> deviceId d = k
           \<and> (\<exists>c. Map_get (clients s) k = Some c \<and> c_type c = host \<and> c_device c \<noteq> None))"
  by (auto simp: registry_inv_def list_all_iff split: option.splits)

lemma registry_inv_initial: "registry_inv initial"
  by (simp add: registry_inv_def initial_def)

lemma registry_inv_frame:
  "clients s' = clients s \<Longrightarrow> devices s' = devices s \<Longrightarrow> registry_inv s' = registry_inv s"
  by (simp add: registry_inv_def)

lemma registry_inv_handleGetDevices: "registry_inv (handleGetDevices e w s) = registry_inv s"
  by (simp add: registry_inv_def handleGetDevices_eq)

lemma registry_inv_handleRegisterHost:
  assumes "registry_inv s"
  shows "registry_inv (handleRegisterHost e w m s)"
proof -
  let ?k = "m_deviceId m"
  let ?d = "host_device e m s"
  let ?c = "\<lparr>c_id = ?k, c_ws = w, c_type = host, c_device = Some ?d\<rparr>"
  have cl: "clients (handleRegisterHost e w m s) = Map_set ?k ?c (clients s)"
    and dv: "devices (handleRegisterHost e w m s) = Map_set ?k ?d (devices s)"
    by (simp_all add: handleRegisterHost_eq Let_def)
  from assms have dist: "distinct (map fst (clients s))"
    and old: "\<And>k d. (k, d) \<in> set (devices s) \<Longrightarrow> online d \<and> deviceId d = k
           \<and> (\<exists>c. Map_get (clients s) k = Some c \<and> c_type c = host \<and> c_device c \<noteq> None)"
    by (auto simp: registry_inv_iff)
  have "online d \<and> deviceId d = k
           \<and> (\<exists>c. Map_get (Map_set ?k ?c (clients s)) k = Some c \<and> c_type c = host \<and> c_device c \<noteq> None)"
    if "(k, d) \<in> set (Map_set ?k ?d (devices s))" for k d
  proof (cases "k = ?k")
    case True
    with that set_Map_set [of ?k ?d "devices s"] have "d = ?d \<or> (k, d) \<in> set (devices s)"
      by auto
    then show ?thesis
    proof
      assume "d = ?d"
      with True show ?thesis by (simp add: Map_get_Map_set host_device_def)
    next
      assume "(k, d) \<in> set (devices s)"
      from old [OF this] True show ?thesis by (simp add: Map_get_Map_set)
    qed
  next
    case False
    with that set_Map_set [of ?k ?d "devices s"] have "(k, d) \<in> set (devices s)"
      by auto
    from old [OF this] False show ?thesis by (simp add: Map_get_Map_set)
  qed
  with dist show ?thesis
    unfolding registry_inv_iff cl dv by (auto simp: distinct_Map_set)
qed

lemma registry_inv_handleRegisterClient:
  assumes "registry_inv s"
      and "Map_get (devices s) (Some (fst (clientId_or_uuid e m s))) = None"
  shows "registry_inv (handleRegisterClient e w m s)"
proof -
  let ?i = "fst (clientId_or_uuid e m s)"
  let ?c = "\<lparr>c_id = Some ?i, c_ws = w, c_type = client, c_device = None\<rparr>"
  have cl: "clients (handleRegisterClient e w m s) = Map_set (Some ?i) ?c (clients s)"
    and dv: "devices (handleRegisterClient e w m s) = devices s"
    by (simp_all add: handleRegisterClient_eq clientId_or_uuid_cases)
  from assms(1) have dist: "distinct (map fst (clients s))"
    and old: "\<And>k d. (k, d) \<in> set (devices s) \<Longrightarrow> online d \<and> deviceId d = k
           \<and> (\<exists>c. Map_get (clients s) k = Some c \<and> c_type c = host \<and> c_device c \<noteq> None)"
    by (auto simp: registry_inv_iff)
  have "online d \<and> deviceId d = k
           \<and> (\<exists>c. Map_get (Map_set (Some ?i) ?c (clients s)) k = Some c \<and> c_type c = host
                  \<and> c_device c \<noteq> None)"
    if "(k, d) \<in> set (devices s)" for k d
  proof -
    from Map_get_member [OF that] assms(2) have "k \<noteq> Some ?i" by auto
    with old [OF that] show ?thesis by (simp add: Map_get_Map_set)
  qed
  with dist show ?thesis
    unfolding registry_inv_iff cl dv by (auto simp: distinct_Map_set)
qed

lemma registry_inv_handleDisconnect:
  assumes "registry_inv s"
  shows "registry_inv (handleDisconnect e w s)"
proof (cases "find (\<lambda>(k, c). c_ws c = w) (clients s)")
  case None
  then show ?thesis using assms by (simp add: handleDisconnect_absent)
next
  case (Some p)
  obtain k c where p: "p = (k, c)" by (cases p)
  from find_Some_set [OF Some] p have mem: "(k, c) \<in> set (clients s)" by simp
  from assms have dist: "distinct (map fst (clients s))"
    and old: "\<And>k d. (k, d) \<in> set (devices s) \<Longrightarrow> online d \<and> deviceId d = k
           \<and> (\<exists>c. Map_get (clients s) k = Some c \<and> c_type c = host \<and> c_device c \<noteq> None)"
    by (auto simp: registry_inv_iff)
  have kc: "Map_get (clients s) k = Some c"
    by (rule Map_get_distinct [OF dist mem])
  have cl: "clients (handleDisconnect e w s) = Map_delete k (clients s)"
    using Some p by (simp add: clients_handleDisconnect)
  have dv: "devices (handleDisconnect e w s) =
      (if c_type c = host \<and> c_device c \<noteq> None then Map_delete k (devices s) else devices s)"
    using Some p by (simp add: devices_handleDisconnect)
  have "online d' \<and> deviceId d' = k'
           \<and> (\<exists>c. Map_get (Map_delete k (clients s)) k' = Some c \<and> c_type c = host
                  \<and> c_device c \<noteq> None)"
    if "(k', d') \<in> set (devices (handleDisconnect e w s))" for k' d'
  proof -
    from that have in_old: "(k', d') \<in> set (devices s)"
      by (auto simp: dv set_Map_delete split: if_splits)
    have "k' \<noteq> k"
    proof (cases "c_type c = host \<and> c_device c \<noteq> None")
      case True
      with that show ?thesis by (auto simp: dv set_Map_delete)
    next
      case False
      show ?thesis
      proof
        assume "k' = k"
        with old [OF in_old] kc have "c_type c = host \<and> c_device c \<noteq> None" by auto
        with False show False by simp
      qed
    qed
    with old [OF in_old] show ?thesis by (simp add: Map_get_Map_delete)
  qed
  with dist show ?thesis
    unfolding registry_inv_iff cl by (auto simp: distinct_Map_delete)
qed

lemma registry_inv_step:
  assumes "registry_inv s" and "\<not> client_takes_host_id e ev s"
  shows "registry_inv (step e ev s)"
proof (cases ev)
  case (Connection w)
  with assms(1) show ?thesis
    by (simp add: on_connection_def registry_inv_def)
next
  case (Close w)
  have "registry_inv (s\<lparr>readyState := (readyState s)(w := CLOSED)\<rparr>)"
    using assms(1) by (simp add: registry_inv_def)
  with Close show ?thesis
    by (simp add: on_close_def registry_inv_handleDisconnect)
next
  case (Message w f)
  show ?thesis
  proof (cases f)
    case (JsonObject m)
    have st: "step e ev s = handleMessage e w m s"
      using Message JsonObject by (simp add: on_message_def)
    have cli: "registry_inv (handleRegisterClient e w m s)" if "m_type m = Some REGISTER_CLIENT"
      using assms that Message JsonObject by (simp add: registry_inv_handleRegisterClient)
    show ?thesis
      unfolding st handleMessage_def using assms(1) cli
      by (simp add: registry_inv_handleRegisterHost registry_inv_handleDisconnect
          registry_inv_frame [OF handleConnectRequest_frame(1,2)]
          registry_inv_frame [OF forward_frame(1,2)]
          registry_inv_frame [OF forward_frame(6,7)]
          registry_inv_frame [OF forward_frame(11,12)]
          registry_inv_handleGetDevices
          split: option.splits MessageType.splits)
  qed (use assms(1) Message in \<open>simp_all add: on_message_def sendError_eq registry_inv_def\<close>)
qed

lemma registry_inv_run:
  "registry_inv s \<Longrightarrow> no_takeover e evs s \<Longrightarrow> registry_inv (run e evs s)"
  by (induction evs arbitrary: s) (simp_all add: registry_inv_step)

section \<open>The timestamps of what each handler sends\<close>

lemma send_calls_append:
  "sends s' = sends s @ xs \<Longrightarrow> sent_at s' = sent_at s @ ns \<Longrightarrow>
   new_sends s s' = xs \<and> new_sent_at s s' = ns \<and> send_calls s s' = zip xs ns"
  by (simp add: new_sends_def new_sent_at_def send_calls_def)

lemma one_reading_each_broadcast:
  "one_reading_each (map (\<lambda>(k, c). (attempt s (c_ws c) x, n)) cs)"
proof (induction cs)
  case Nil
  show ?case by simp
next
  case (Cons p cs)
  then show ?case by (cases cs) (auto simp: split_def)
qed

lemma one_reading_each_reply_broadcast:
  "msg_type x \<noteq> msg_type y \<Longrightarrow> n < n' \<Longrightarrow>
   one_reading_each ((attempt s w y, n) # map (\<lambda>(k, c). (attempt s (c_ws c) x, n')) cs)"
  using one_reading_each_broadcast [of s x n' cs]
  by (cases cs) (auto simp: split_def)

lemma zip_broadcast:
  "zip (map (\<lambda>(k, c). f k c) cs) (map (\<lambda>(k, c). n) cs) = map (\<lambda>(k, c). (f k c, n)) cs"
  by (induction cs) auto

lemma stamped_sendError:
  "length (new_sent_at s (sendError e w err s)) = length (new_sends s (sendError e w err s))
   \<and> list_all (\<lambda>(a, n). built_by_server (message_of a)
                         \<and> stamped_at_send e (ticks s) (message_of a) n)
       (send_calls s (sendError e w err s))
   \<and> one_reading_each (send_calls s (sendError e w err s))"
  using send_calls_append [of "sendError e w err s" s
      "[attempt s w (ErrorMsg (clock e (ticks s)) err None)]" "[Suc (ticks s)]"]
  by (simp add: sendError_eq built_by_server_def stamped_at_send_def)

lemma stamped_handleRegisterHost:
  "length (new_sent_at s (handleRegisterHost e w m s)) = length (new_sends s (handleRegisterHost e w m s))
   \<and> list_all (\<lambda>(a, n). built_by_server (message_of a)
                         \<and> stamped_at_send e (ticks s) (message_of a) n)
       (send_calls s (handleRegisterHost e w m s))
   \<and> one_reading_each (send_calls s (handleRegisterHost e w m s))"
proof -
  let ?s' = "s\<lparr>clients := Map_set (m_deviceId m)
        \<lparr>c_id = m_deviceId m, c_ws = w, c_type = host, c_device = Some (host_device e m s)\<rparr>
        (clients s), devices := Map_set (m_deviceId m) (host_device e m s) (devices s)\<rparr>"
  let ?x = "DeviceStatus DEVICE_ONLINE (clock e (Suc (Suc (ticks s)))) (host_device e m s)"
  let ?y = "AuthSuccess (clock e (Suc (ticks s))) (m_deviceId m)"
  have "send_calls s (handleRegisterHost e w m s) =
      (attempt s w ?y, Suc (Suc (ticks s)))
      # map (\<lambda>(k, c). (attempt s (c_ws c) ?x, Suc (Suc (Suc (ticks s))))) (client_entries ?s')"
    and "length (new_sent_at s (handleRegisterHost e w m s)) =
         length (new_sends s (handleRegisterHost e w m s))"
    using send_calls_append [of "handleRegisterHost e w m s" s
        "attempt s w ?y # map (\<lambda>(k, c). attempt s (c_ws c) ?x) (client_entries ?s')"
        "Suc (Suc (ticks s)) # map (\<lambda>(k, c). Suc (Suc (Suc (ticks s)))) (client_entries ?s')"]
    by (simp_all add: handleRegisterHost_eq Let_def zip_broadcast)
  moreover have "one_reading_each ((attempt s w ?y, Suc (Suc (ticks s)))
      # map (\<lambda>(k, c). (attempt s (c_ws c) ?x, Suc (Suc (Suc (ticks s))))) (client_entries ?s'))"
    by (rule one_reading_each_reply_broadcast) simp_all
  ultimately show ?thesis
    by (simp add: built_by_server_def stamped_at_send_def list_all_iff split_def)
qed

lemma stamped_handleRegisterClient:
  "length (new_sent_at s (handleRegisterClient e w m s)) = length (new_sends s (handleRegisterClient e w m s))
   \<and> list_all (\<lambda>(a, n). built_by_server (message_of a)
                         \<and> stamped_at_send e (ticks s) (message_of a) n)
       (send_calls s (handleRegisterClient e w m s))
   \<and> one_reading_each (send_calls s (handleRegisterClient e w m s))"
  using send_calls_append [of "handleRegisterClient e w m s" s
      "[attempt s w (AuthSuccess (clock e (ticks s)) (Some (fst (clientId_or_uuid e m s))))]"
      "[Suc (ticks s)]"]
  by (simp add: handleRegisterClient_eq clientId_or_uuid_cases built_by_server_def
      stamped_at_send_def)

lemma stamped_handleGetDevices:
  "length (new_sent_at s (handleGetDevices e w s)) = length (new_sends s (handleGetDevices e w s))
   \<and> list_all (\<lambda>(a, n). built_by_server (message_of a)
                         \<and> stamped_at_send e (ticks s) (message_of a) n)
       (send_calls s (handleGetDevices e w s))
   \<and> one_reading_each (send_calls s (handleGetDevices e w s))"
  using send_calls_append [of "handleGetDevices e w s" s
      "[attempt s w (DeviceList (clock e (ticks s)) (map snd (devices s)))]" "[Suc (ticks s)]"]
  by (simp add: handleGetDevices_eq built_by_server_def stamped_at_send_def)

lemma stamped_handleConnectRequest:
  "length (new_sent_at s (handleConnectRequest e w m s)) = length (new_sends s (handleConnectRequest e w m s))
   \<and> list_all (\<lambda>(a, n). built_by_server (message_of a)
                         \<and> stamped_at_send e (ticks s) (message_of a) n)
       (send_calls s (handleConnectRequest e w m s))
   \<and> one_reading_each (send_calls s (handleConnectRequest e w m s))"
proof (cases "\<exists>tc. Map_get (clients s) (m_targetDeviceId m) = Some tc \<and> c_type tc = host")
  case True
  then obtain tc where tc: "Map_get (clients s) (m_targetDeviceId m) = Some tc" "c_type tc = host"
    by blast
  from send_calls_append [of "handleConnectRequest e w m s" s
      "[attempt s (c_ws tc)
          (ConnectRequest (clock e (ticks s)) (m_targetDeviceId m) (m_clientId m)),
        attempt s w (ConnectionAccepted (clock e (Suc (ticks s))) (m_targetDeviceId m))]"
      "[Suc (ticks s), Suc (Suc (ticks s))]"]
  show ?thesis
    by (simp add: handleConnectRequest_host [OF tc] built_by_server_def stamped_at_send_def)
next
  case False
  then have "handleConnectRequest e w m s = sendError e w ''Target device not found or offline'' s"
    by (auto simp: handleConnectRequest_def split: option.splits)
  then show ?thesis by (simp only: stamped_sendError)
qed

lemma stamped_handleDisconnect:
  "length (new_sent_at s (handleDisconnect e w s)) = length (new_sends s (handleDisconnect e w s))
   \<and> list_all (\<lambda>(a, n). built_by_server (message_of a)
                         \<and> stamped_at_send e (ticks s) (message_of a) n)
       (send_calls s (handleDisconnect e w s))
   \<and> one_reading_each (send_calls s (handleDisconnect e w s))"
proof (cases "\<exists>k c d. find (\<lambda>(k, c). c_ws c = w) (clients s) = Some (k, c)
                 \<and> c_type c = host \<and> c_device c = Some d")
  case True
  then obtain k c d where f: "find (\<lambda>(k, c). c_ws c = w) (clients s) = Some (k, c)"
    and h: "c_type c = host" "c_device c = Some d"
    by blast
  let ?x = "DeviceStatus DEVICE_OFFLINE (clock e (Suc (ticks s)))
              (d\<lparr>online := False, lastSeen := clock e (ticks s)\<rparr>)"
  from send_calls_append [of "handleDisconnect e w s" s
      "map (\<lambda>(k', c'). attempt s (c_ws c') ?x) (client_entries s)"
      "map (\<lambda>(k', c'). Suc (Suc (ticks s))) (client_entries s)"]
  have "send_calls s (handleDisconnect e w s) =
      map (\<lambda>(k', c'). (attempt s (c_ws c') ?x, Suc (Suc (ticks s)))) (client_entries s)"
    and "length (new_sent_at s (handleDisconnect e w s)) =
         length (new_sends s (handleDisconnect e w s))"
    by (simp_all add: handleDisconnect_eq f h zip_broadcast)
  with one_reading_each_broadcast [of s ?x "Suc (Suc (ticks s))" "client_entries s"]
  show ?thesis
    by (simp add: built_by_server_def stamped_at_send_def list_all_iff split_def)
next
  case False
  then have "sends (handleDisconnect e w s) = sends s"
    and "sent_at (handleDisconnect e w s) = sent_at s"
    by (auto simp: handleDisconnect_eq split: option.splits prod.splits ClientType.splits)
  then show ?thesis
    by (simp add: new_sends_def new_sent_at_def send_calls_def)
qed

lemma relayed_forward:
  assumes "m_type m = Some OFFER \<or> m_type m = Some ANSWER \<or> m_type m = Some ICE_CANDIDATE"
  shows "length (new_sent_at s (handleOffer m s)) = length (new_sends s (handleOffer m s))
       \<and> list_all (\<lambda>(a, n). relayed (Message w (JsonObject m)) (message_of a))
           (send_calls s (handleOffer m s))
       \<and> one_reading_each (send_calls s (handleOffer m s))"
    and "handleAnswer m s = handleOffer m s"
    and "handleIceCandidate m s = handleOffer m s"
  using assms
  by (auto simp: handleOffer_def handleAnswer_def handleIceCandidate_def send_eq new_sends_def
      new_sent_at_def send_calls_def relayed_def split: option.splits)

section \<open>The scenario, evaluated\<close>

lemmas handler_defs = run_def on_connection_def on_message_def on_close_def handleMessage_def
  handleRegisterHost_def handleRegisterClient_def handleGetDevices_def handleConnectRequest_def
  handleOffer_def handleAnswer_def handleIceCandidate_def handleDisconnect_def
  broadcastDeviceStatus_def sendError_def send_def Date_now_def uuidv4_def clientId_or_uuid_def
  Map_get_def Map_delete_def initial_def Let_def

lemmas fixture_defs = demo_env_def no_fields_def register_h1_def register_h2_def
  register_c1_def register_c2_def register_client_h1_def register_anonymous_def
  get_devices_msg_def disconnect_msg_def connect_c1_h1_def connect_c1_h2_def connect_c1_h9_def
  connect_c1_c1_def offer_h1_c1_def offer_h1_c9_def offer_c1_h2_def

lemma clock_demo_env: "clock demo_env n = 1000 + n"
  by (simp add: demo_env_def)

lemma uuid_demo_env: "uuid demo_env n = ''uuid-'' @ replicate (Suc n) (CHR ''x'')"
  by (simp add: demo_env_def)

lemma inj_uuid_demo_env: "inj (uuid demo_env)"
proof (rule injI)
  fix a b
  assume "uuid demo_env a = uuid demo_env b"
  then have "length (uuid demo_env a) = length (uuid demo_env b)" by simp
  then show "a = b" by (simp add: uuid_demo_env)
qed

lemma host_and_client_eq:
  "host_and_client =
   \<lparr>clients = [(Some ''h1'', \<lparr>c_id = Some ''h1'', c_ws = 2, c_type = host, c_device = Some
                   \<lparr>deviceId = Some ''h1'', deviceName = Some ''Office-PC'', platform = Some ''macos'',
                    online = True, lastSeen = 1000\<rparr>\<rparr>),
               (Some ''c1'', \<lparr>c_id = Some ''c1'', c_ws = 3, c_type = client, c_device = None\<rparr>)],
     devices = [(Some ''h1'', \<lparr>deviceId = Some ''h1'', deviceName = Some ''Office-PC'',
                   platform = Some ''macos'', online = True, lastSeen = 1000\<rparr>)],
     readyState = (\<lambda>w. CONNECTING)(2 := OPEN, 3 := OPEN),
     sends = [Written 2 (AuthSuccess 1001 (Some ''h1'')), Written 3 (AuthSuccess 1003 (Some ''c1''))],
     sent_at = [2, 4],
     ticks = 4, draws = 0\<rparr>"
  by (simp add: host_and_client_def handler_defs fixture_defs)

lemma on_close_host_eq:
  "on_close demo_env 2 host_and_client =
   \<lparr>clients = [(Some ''c1'', \<lparr>c_id = Some ''c1'', c_ws = 3, c_type = client, c_device = None\<rparr>)],
     devices = [],
     readyState = (\<lambda>w. CONNECTING)(2 := OPEN, 3 := OPEN, 2 := CLOSED),
     sends = [Written 2 (AuthSuccess 1001 (Some ''h1'')), Written 3 (AuthSuccess 1003 (Some ''c1'')),
             Written 3 (DeviceStatus DEVICE_OFFLINE 1005
                  \<lparr>deviceId = Some ''h1'', deviceName = Some ''Office-PC'',
                   platform = Some ''macos'', online = False, lastSeen = 1004\<rparr>)],
     sent_at = [2, 4, 6],
     ticks = 6, draws = 0\<rparr>"
  by (simp add: host_and_client_eq on_close_def handleDisconnect_eq client_entries_def
      attempt_def demo_env_def Map_delete_def)

lemma host_closed_eq:
  "host_closed =
   \<lparr>clients = [(Some ''c1'', \<lparr>c_id = Some ''c1'', c_ws = 3, c_type = client, c_device = None\<rparr>)],
     devices = [],
     readyState = (\<lambda>w. CONNECTING)(2 := OPEN, 3 := OPEN, 2 := CLOSED),
     sends = [Written 2 (AuthSuccess 1001 (Some ''h1'')), Written 3 (AuthSuccess 1003 (Some ''c1'')),
             Written 3 (DeviceStatus DEVICE_OFFLINE 1005
                  \<lparr>deviceId = Some ''h1'', deviceName = Some ''Office-PC'',
                   platform = Some ''macos'', online = False, lastSeen = 1004\<rparr>)],
     sent_at = [2, 4, 6],
     ticks = 6, draws = 0\<rparr>"
  by (simp add: host_closed_def on_close_host_eq)

lemma three_sockets_eq:
  "three_sockets =
   \<lparr>clients = [(Some ''h1'', \<lparr>c_id = Some ''h1'', c_ws = 2, c_type = host, c_device = Some
                   \<lparr>deviceId = Some ''h1'', deviceName = Some ''Office-PC'', platform = Some ''macos'',
                    online = True, lastSeen = 1000\<rparr>\<rparr>),
               (Some ''c1'', \<lparr>c_id = Some ''c1'', c_ws = 3, c_type = client, c_device = None\<rparr>)],
     devices = [(Some ''h1'', \<lparr>deviceId = Some ''h1'', deviceName = Some ''Office-PC'',
                   platform = Some ''macos'', online = True, lastSeen = 1000\<rparr>)],
     readyState = (\<lambda>w. CONNECTING)(2 := OPEN, 3 := OPEN, 4 := OPEN),
     sends = [Written 2 (AuthSuccess 1001 (Some ''h1'')), Written 3 (AuthSuccess 1003 (Some ''c1''))],
     sent_at = [2, 4],
     ticks = 4, draws = 0\<rparr>"
  by (simp add: three_sockets_def on_connection_def host_and_client_eq)

lemma two_hosts_one_socket_eq:
  "two_hosts_one_socket =
   \<lparr>clients = [(Some ''h1'', \<lparr>c_id = Some ''h1'', c_ws = 2, c_type = host, c_device = Some
                   \<lparr>deviceId = Some ''h1'', deviceName = Some ''Office-PC'', platform = Some ''macos'',
                    online = True, lastSeen = 1000\<rparr>\<rparr>),
               (Some ''h2'', \<lparr>c_id = Some ''h2'', c_ws = 2, c_type = host, c_device = Some
                   \<lparr>deviceId = Some ''h2'', deviceName = Some ''Laptop'', platform = Some ''win32'',
                    online = True, lastSeen = 1003\<rparr>\<rparr>)],
     devices = [(Some ''h1'', \<lparr>deviceId = Some ''h1'', deviceName = Some ''Office-PC'',
                   platform = Some ''macos'', online = True, lastSeen = 1000\<rparr>),
                (Some ''h2'', \<lparr>deviceId = Some ''h2'', deviceName = Some ''Laptop'',
                   platform = Some ''win32'', online = True, lastSeen = 1003\<rparr>)],
     readyState = (\<lambda>w. CONNECTING)(2 := OPEN),
     sends = [Written 2 (AuthSuccess 1001 (Some ''h1'')), Written 2 (AuthSuccess 1004 (Some ''h2''))],
     sent_at = [2, 5],
     ticks = 6, draws = 0\<rparr>"
  by (simp add: two_hosts_one_socket_def handler_defs fixture_defs register_h2_def)

lemma two_hosts_and_client_eq:
  "two_hosts_and_client =
   \<lparr>clients = [(Some ''h1'', \<lparr>c_id = Some ''h1'', c_ws = 2, c_type = host, c_device = Some
                   \<lparr>deviceId = Some ''h1'', deviceName = Some ''Office-PC'', platform = Some ''macos'',
                    online = True, lastSeen = 1000\<rparr>\<rparr>),
               (Some ''h2'', \<lparr>c_id = Some ''h2'', c_ws = 2, c_type = host, c_device = Some
                   \<lparr>deviceId = Some ''h2'', deviceName = Some ''Laptop'', platform = Some ''win32'',
                    online = True, lastSeen = 1003\<rparr>\<rparr>),
               (Some ''c1'', \<lparr>c_id = Some ''c1'', c_ws = 3, c_type = client, c_device = None\<rparr>)],
     devices = [(Some ''h1'', \<lparr>deviceId = Some ''h1'', deviceName = Some ''Office-PC'',
                   platform = Some ''macos'', online = True, lastSeen = 1000\<rparr>),
                (Some ''h2'', \<lparr>deviceId = Some ''h2'', deviceName = Some ''Laptop'',
                   platform = Some ''win32'', online = True, lastSeen = 1003\<rparr>)],
     readyState = (\<lambda>w. CONNECTING)(2 := OPEN, 3 := OPEN),
     sends = [Written 2 (AuthSuccess 1001 (Some ''h1'')), Written 2 (AuthSuccess 1004 (Some ''h2'')),
             Written 3 (AuthSuccess 1006 (Some ''c1''))],
     sent_at = [2, 5, 7],
     ticks = 7, draws = 0\<rparr>"
  by (simp add: two_hosts_and_client_def handler_defs fixture_defs)

lemma client_took_h1_eq:
  "client_took_h1 =
   \<lparr>clients = [(Some ''h1'', \<lparr>c_id = Some ''h1'', c_ws = 3, c_type = client, c_device = None\<rparr>)],
     devices = [(Some ''h1'', \<lparr>deviceId = Some ''h1'', deviceName = Some ''Office-PC'',
                   platform = Some ''macos'', online = True, lastSeen = 1000\<rparr>)],
     readyState = (\<lambda>w. CONNECTING)(2 := OPEN, 3 := OPEN),
     sends = [Written 2 (AuthSuccess 1001 (Some ''h1'')), Written 3 (AuthSuccess 1003 (Some ''h1''))],
     sent_at = [2, 4],
     ticks = 4, draws = 0\<rparr>"
  by (simp add: client_took_h1_def handler_defs fixture_defs)

lemma stale_host_eq:
  "stale_host =
   \<lparr>clients = [(Some ''h2'', \<lparr>c_id = Some ''h2'', c_ws = 2, c_type = host, c_device = Some
                   \<lparr>deviceId = Some ''h2'', deviceName = Some ''Laptop'', platform = Some ''win32'',
                    online = True, lastSeen = 1003\<rparr>\<rparr>),
               (Some ''c1'', \<lparr>c_id = Some ''c1'', c_ws = 3, c_type = client, c_device = None\<rparr>)],
     devices = [(Some ''h2'', \<lparr>deviceId = Some ''h2'', deviceName = Some ''Laptop'',
                   platform = Some ''win32'', online = True, lastSeen = 1003\<rparr>)],
     readyState = (\<lambda>w. CONNECTING)(2 := CLOSED, 3 := OPEN),
     sends = [Written 2 (AuthSuccess 1001 (Some ''h1'')), Written 2 (AuthSuccess 1004 (Some ''h2'')),
             Written 3 (AuthSuccess 1008 (Some ''c1''))],
     sent_at = [2, 5, 9],
     ticks = 9, draws = 0\<rparr>"
  by (simp add: stale_host_def handler_defs fixture_defs)

lemma stale_client_eq:
  "stale_client =
   \<lparr>clients = [(Some ''h1'', \<lparr>c_id = Some ''h1'', c_ws = 2, c_type = host, c_device = Some
                   \<lparr>deviceId = Some ''h1'', deviceName = Some ''Office-PC'', platform = Some ''macos'',
                    online = True, lastSeen = 1000\<rparr>\<rparr>),
               (Some ''c2'', \<lparr>c_id = Some ''c2'', c_ws = 3, c_type = client, c_device = None\<rparr>)],
     devices = [(Some ''h1'', \<lparr>deviceId = Some ''h1'', deviceName = Some ''Office-PC'',
                   platform = Some ''macos'', online = True, lastSeen = 1000\<rparr>)],
     readyState = (\<lambda>w. CONNECTING)(2 := OPEN, 3 := CLOSED),
     sends = [Written 2 (AuthSuccess 1001 (Some ''h1'')), Written 3 (AuthSuccess 1003 (Some ''c1'')),
             Written 3 (AuthSuccess 1004 (Some ''c2''))],
     sent_at = [2, 4, 5],
     ticks = 5, draws = 0\<rparr>"
  by (simp add: stale_client_def handler_defs fixture_defs)

section \<open>The claims\<close>

text \<open>
  C1 fails on the code. After host \<open>h1\<close> has registered and a REGISTER_CLIENT has reused
  the id \<open>h1\<close>, \<open>devices\<close> still holds \<open>h1\<close> with \<open>online = true\<close> while the only
  participant under \<open>h1\<close> is a client; \<open>handleRegisterClient\<close> replaces the entry of
  \<open>clients\<close> and leaves \<open>devices\<close> alone. The device survives the close of both sockets:
  with no participant left, GET_DEVICES on a new socket still lists it as online.
\<close>

theorem C1_client_takeover_leaves_device:
  "clients client_took_h1 =
     [(Some ''h1'', \<lparr>c_id = Some ''h1'', c_ws = 3, c_type = client, c_device = None\<rparr>)]
   \<and> devices client_took_h1 =
     [(Some ''h1'', \<lparr>deviceId = Some ''h1'', deviceName = Some ''Office-PC'',
          platform = Some ''macos'', online = True, lastSeen = 1000\<rparr>)]
   \<and> registry_inv (run demo_env [Connection 2, Message 2 (JsonObject register_h1)] initial)
   \<and> \<not> registry_inv client_took_h1
   \<and> clients (run demo_env [Close 3, Close 2] client_took_h1) = []
   \<and> new_sends (run demo_env [Close 3, Close 2, Connection 4] client_took_h1)
       (run demo_env [Close 3, Close 2, Connection 4, Message 4 (JsonObject get_devices_msg)]
          client_took_h1) =
     [Written 4 (DeviceList 1004 [\<lparr>deviceId = Some ''h1'', deviceName = Some ''Office-PC'',
          platform = Some ''macos'', online = True, lastSeen = 1000\<rparr>])]"
  by (simp add: client_took_h1_eq registry_inv_def new_sends_def get_devices_msg_def
      handler_defs fixture_defs)




text \<open>
  C3. A CONNECT_REQUEST: when \<open>clients\<close> has no entry under \<open>targetDeviceId\<close>, or the
  entry is not a host, the only effect is one ERROR "Target device not found or offline"
  sent to the requester. When the entry is a host, exactly two messages are sent: one
  CONNECT_REQUEST with the same \<open>targetDeviceId\<close> and \<open>clientId\<close> to the host's socket,
  then one CONNECTION_ACCEPTED with \<open>hostId = targetDeviceId\<close> to the requester; no
  approval is waited for. The maps are unchanged in every case. With both sockets open
  both messages are written; \<open>send\<close> drops a message whose socket is not open.
\<close>

theorem C3_connect_request:
  assumes "m_type m = Some CONNECT_REQUEST"
  shows "(Map_get (clients s) (m_targetDeviceId m) = None \<longrightarrow>
            on_message e w (JsonObject m) s =
              s\<lparr>ticks := Suc (ticks s),
                sends := sends s @ [attempt s w (ErrorMsg (clock e (ticks s))
                                        ''Target device not found or offline'' None)],
                sent_at := sent_at s @ [Suc (ticks s)]\<rparr>)
       \<and> (\<forall>tc. Map_get (clients s) (m_targetDeviceId m) = Some tc \<and> c_type tc \<noteq> host \<longrightarrow>
            on_message e w (JsonObject m) s =
              s\<lparr>ticks := Suc (ticks s),
                sends := sends s @ [attempt s w (ErrorMsg (clock e (ticks s))
                                        ''Target device not found or offline'' None)],
                sent_at := sent_at s @ [Suc (ticks s)]\<rparr>)
       \<and> (\<forall>tc. Map_get (clients s) (m_targetDeviceId m) = Some tc \<and> c_type tc = host \<longrightarrow>
            on_message e w (JsonObject m) s =
              s\<lparr>ticks := Suc (Suc (ticks s)),
                sends := sends s @
                  [attempt s (c_ws tc)
                     (ConnectRequest (clock e (ticks s)) (m_targetDeviceId m) (m_clientId m)),
                   attempt s w
                     (ConnectionAccepted (clock e (Suc (ticks s))) (m_targetDeviceId m))],
                sent_at := sent_at s @ [Suc (ticks s), Suc (Suc (ticks s))]\<rparr>)
       \<and> (\<forall>tc. Map_get (clients s) (m_targetDeviceId m) = Some tc \<and> c_type tc = host
                \<and> readyState s (c_ws tc) = OPEN \<and> readyState s w = OPEN \<longrightarrow>
            new_sends s (on_message e w (JsonObject m) s) =
              [Written (c_ws tc)
                 (ConnectRequest (clock e (ticks s)) (m_targetDeviceId m) (m_clientId m)),
               Written w (ConnectionAccepted (clock e (Suc (ticks s))) (m_targetDeviceId m))])"
  using assms
  by (auto simp: on_message_def handleMessage_def handleConnectRequest_host new_sends_def
      attempt_open)
     (auto simp: handleConnectRequest_def sendError_eq)

theorem C3_connect_request_witness:
  "m_type connect_c1_h9 = Some CONNECT_REQUEST
   \<and> Map_get (clients host_and_client) (m_targetDeviceId connect_c1_h9) = None
   \<and> on_message demo_env 3 (JsonObject connect_c1_h9) host_and_client =
       host_and_client\<lparr>ticks := 5,
         sends := sends host_and_client @
           [Written 3 (ErrorMsg 1004 ''Target device not found or offline'' None)],
         sent_at := sent_at host_and_client @ [5]\<rparr>
   \<and> m_type connect_c1_c1 = Some CONNECT_REQUEST
   \<and> on_message demo_env 3 (JsonObject connect_c1_c1) host_and_client =
       host_and_client\<lparr>ticks := 5,
         sends := sends host_and_client @
           [Written 3 (ErrorMsg 1004 ''Target device not found or offline'' None)],
         sent_at := sent_at host_and_client @ [5]\<rparr>
   \<and> m_type connect_c1_h1 = Some CONNECT_REQUEST
   \<and> readyState host_and_client 2 = OPEN
   \<and> readyState host_and_client 3 = OPEN
   \<and> on_message demo_env 3 (JsonObject connect_c1_h1) host_and_client =
       host_and_client\<lparr>ticks := 6,
         sends := sends host_and_client @
           [Written 2 (ConnectRequest 1004 (Some ''h1'') (Some ''c1'')),
            Written 3 (ConnectionAccepted 1005 (Some ''h1''))],
         sent_at := sent_at host_and_client @ [5, 6]\<rparr>
   \<and> new_sends host_and_client
         (on_message demo_env 3 (JsonObject connect_c1_h1) host_and_client) =
       [Written 2 (ConnectRequest 1004 (Some ''h1'') (Some ''c1'')),
        Written 3 (ConnectionAccepted 1005 (Some ''h1''))]
   \<and> m_type connect_c1_h2 = Some CONNECT_REQUEST
   \<and> on_message demo_env 3 (JsonObject connect_c1_h2) stale_host =
       stale_host\<lparr>ticks := 11,
         sends := sends stale_host @
           [Dropped 2 (ConnectRequest 1009 (Some ''h2'') (Some ''c1'')),
            Written 3 (ConnectionAccepted 1010 (Some ''h2''))],
         sent_at := sent_at stale_host @ [10, 11]\<rparr>"
proof -
  let ?h1 = "\<lparr>c_id = Some ''h1'', c_ws = 2, c_type = host, c_device = Some
        \<lparr>deviceId = Some ''h1'', deviceName = Some ''Office-PC'', platform = Some ''macos'',
         online = True, lastSeen = 1000\<rparr>\<rparr>"
  let ?h2 = "\<lparr>c_id = Some ''h2'', c_ws = 2, c_type = host, c_device = Some
        \<lparr>deviceId = Some ''h2'', deviceName = Some ''Laptop'', platform = Some ''win32'',
         online = True, lastSeen = 1003\<rparr>\<rparr>"
  let ?c1 = "\<lparr>c_id = Some ''c1'', c_ws = 3, c_type = client, c_device = None\<rparr>"
  have o: "readyState host_and_client 3 = OPEN" and o2: "readyState host_and_client 2 = OPEN"
    by (simp_all add: host_and_client_eq)
  have so: "readyState stale_host 3 = OPEN" and sc: "readyState stale_host 2 \<noteq> OPEN"
    by (simp_all add: stale_host_eq)
  have t1: "m_type connect_c1_h1 = Some CONNECT_REQUEST"
    and t2: "m_type connect_c1_h2 = Some CONNECT_REQUEST"
    and t9: "m_type connect_c1_h9 = Some CONNECT_REQUEST"
    and tc: "m_type connect_c1_c1 = Some CONNECT_REQUEST"
    by (simp_all add: connect_c1_h1_def connect_c1_h2_def connect_c1_h9_def connect_c1_c1_def
        no_fields_def)
  have f1: "m_targetDeviceId connect_c1_h1 = Some ''h1''" "m_clientId connect_c1_h1 = Some ''c1''"
    and f2: "m_targetDeviceId connect_c1_h2 = Some ''h2''" "m_clientId connect_c1_h2 = Some ''c1''"
    by (simp_all add: connect_c1_h1_def connect_c1_h2_def no_fields_def)
  have none: "Map_get (clients host_and_client) (m_targetDeviceId connect_c1_h9) = None"
    by (simp add: host_and_client_eq connect_c1_h9_def no_fields_def Map_get_def)
  have cli: "Map_get (clients host_and_client) (m_targetDeviceId connect_c1_c1) = Some ?c1
      \<and> c_type ?c1 \<noteq> host"
    by (simp add: host_and_client_eq connect_c1_c1_def no_fields_def Map_get_def)
  have hst: "Map_get (clients host_and_client) (m_targetDeviceId connect_c1_h1) = Some ?h1
      \<and> c_type ?h1 = host"
    by (simp add: host_and_client_eq f1 Map_get_def)
  have hst': "Map_get (clients host_and_client) (m_targetDeviceId connect_c1_h1) = Some ?h1
      \<and> c_type ?h1 = host \<and> readyState host_and_client (c_ws ?h1) = OPEN
      \<and> readyState host_and_client 3 = OPEN"
    using hst o o2 by simp
  have stl: "Map_get (clients stale_host) (m_targetDeviceId connect_c1_h2) = Some ?h2
      \<and> c_type ?h2 = host"
    by (simp add: stale_host_eq f2 Map_get_def)
  have tk: "ticks host_and_client = 4" and stk: "ticks stale_host = 9"
    by (simp_all add: host_and_client_eq stale_host_eq)
  from C3_connect_request [OF t9, of host_and_client demo_env 3, THEN conjunct1, rule_format,
      OF none]
  have a: "on_message demo_env 3 (JsonObject connect_c1_h9) host_and_client =
       host_and_client\<lparr>ticks := 5,
         sends := sends host_and_client @
           [Written 3 (ErrorMsg 1004 ''Target device not found or offline'' None)],
         sent_at := sent_at host_and_client @ [5]\<rparr>"
    by (simp add: tk clock_demo_env attempt_open [OF o])
  from C3_connect_request [OF tc, of host_and_client demo_env 3, THEN conjunct2, THEN conjunct1,
      rule_format, OF cli]
  have b: "on_message demo_env 3 (JsonObject connect_c1_c1) host_and_client =
       host_and_client\<lparr>ticks := 5,
         sends := sends host_and_client @
           [Written 3 (ErrorMsg 1004 ''Target device not found or offline'' None)],
         sent_at := sent_at host_and_client @ [5]\<rparr>"
    by (simp add: tk clock_demo_env attempt_open [OF o])
  from C3_connect_request [OF t1, of host_and_client demo_env 3, THEN conjunct2, THEN conjunct2,
      THEN conjunct1, rule_format, OF hst]
  have c: "on_message demo_env 3 (JsonObject connect_c1_h1) host_and_client =
       host_and_client\<lparr>ticks := 6,
         sends := sends host_and_client @
           [Written 2 (ConnectRequest 1004 (Some ''h1'') (Some ''c1'')),
            Written 3 (ConnectionAccepted 1005 (Some ''h1''))],
         sent_at := sent_at host_and_client @ [5, 6]\<rparr>"
    by (simp add: tk clock_demo_env f1 attempt_open [OF o] attempt_open [OF o2])
  from C3_connect_request [OF t1, of host_and_client demo_env 3, THEN conjunct2, THEN conjunct2,
      THEN conjunct2, rule_format, OF hst']
  have c': "new_sends host_and_client
         (on_message demo_env 3 (JsonObject connect_c1_h1) host_and_client) =
       [Written 2 (ConnectRequest 1004 (Some ''h1'') (Some ''c1'')),
        Written 3 (ConnectionAccepted 1005 (Some ''h1''))]"
    by (simp add: tk clock_demo_env f1)
  from C3_connect_request [OF t2, of stale_host demo_env 3, THEN conjunct2, THEN conjunct2,
      THEN conjunct1, rule_format, OF stl]
  have d: "on_message demo_env 3 (JsonObject connect_c1_h2) stale_host =
       stale_host\<lparr>ticks := 11,
         sends := sends stale_host @
           [Dropped 2 (ConnectRequest 1009 (Some ''h2'') (Some ''c1'')),
            Written 3 (ConnectionAccepted 1010 (Some ''h2''))],
         sent_at := sent_at stale_host @ [10, 11]\<rparr>"
    by (simp add: stk clock_demo_env f2 attempt_open [OF so] attempt_not_open [OF sc])
  from o o2 t1 t2 t9 tc none a b c c' d show ?thesis by (simp only:)
qed

text \<open>
  C4. An OFFER, ANSWER or ICE_CANDIDATE frame whose \<open>to\<close> is a key of \<open>clients\<close> is sent,
  exactly as it was received, to that entry's socket, and nothing else changes; with
  the socket open the frame is written to it (\<open>send\<close> drops it otherwise). When \<open>to\<close> is
  no key of \<open>clients\<close> the state is unchanged: nothing is sent to anyone, the sender
  included.
\<close>

theorem C4_forwarding:
  assumes "m_type m = Some OFFER \<or> m_type m = Some ANSWER \<or> m_type m = Some ICE_CANDIDATE"
  shows "(\<forall>tc. Map_get (clients s) (m_to m) = Some tc \<longrightarrow>
            on_message e w (JsonObject m) s =
              s\<lparr>sends := sends s @ [attempt s (c_ws tc) (Forwarded m)],
                sent_at := sent_at s @ [ticks s]\<rparr>)
       \<and> (\<forall>tc. Map_get (clients s) (m_to m) = Some tc \<and> readyState s (c_ws tc) = OPEN \<longrightarrow>
            new_sends s (on_message e w (JsonObject m) s) = [Written (c_ws tc) (Forwarded m)])
       \<and> (Map_get (clients s) (m_to m) = None \<longrightarrow> on_message e w (JsonObject m) s = s)"
  using assms
  by (auto simp: on_message_def handleMessage_def handleOffer_def handleAnswer_def
      handleIceCandidate_def send_eq new_sends_def attempt_open)

theorem C4_forwarding_witness:
  "m_type offer_h1_c1 = Some OFFER
   \<and> Map_get (clients host_and_client) (m_to offer_h1_c1) =
       Some \<lparr>c_id = Some ''c1'', c_ws = 3, c_type = client, c_device = None\<rparr>
   \<and> readyState host_and_client 3 = OPEN
   \<and> on_message demo_env 2 (JsonObject offer_h1_c1) host_and_client =
       host_and_client\<lparr>sends := sends host_and_client @ [Written 3 (Forwarded offer_h1_c1)],
         sent_at := sent_at host_and_client @ [4]\<rparr>
   \<and> new_sends host_and_client
         (on_message demo_env 2 (JsonObject offer_h1_c1) host_and_client) =
       [Written 3 (Forwarded offer_h1_c1)]
   \<and> m_type offer_h1_c9 = Some OFFER
   \<and> Map_get (clients host_and_client) (m_to offer_h1_c9) = None
   \<and> on_message demo_env 2 (JsonObject offer_h1_c9) host_and_client = host_and_client
   \<and> m_type offer_c1_h2 = Some OFFER
   \<and> on_message demo_env 3 (JsonObject offer_c1_h2) stale_host =
       stale_host\<lparr>sends := sends stale_host @ [Dropped 2 (Forwarded offer_c1_h2)],
         sent_at := sent_at stale_host @ [9]\<rparr>"
proof -
  let ?c1 = "\<lparr>c_id = Some ''c1'', c_ws = 3, c_type = client, c_device = None\<rparr>"
  let ?h2 = "\<lparr>c_id = Some ''h2'', c_ws = 2, c_type = host, c_device = Some
        \<lparr>deviceId = Some ''h2'', deviceName = Some ''Laptop'', platform = Some ''win32'',
         online = True, lastSeen = 1003\<rparr>\<rparr>"
  have t1: "m_type offer_h1_c1 = Some OFFER" and t9: "m_type offer_h1_c9 = Some OFFER"
    and t2: "m_type offer_c1_h2 = Some OFFER"
    by (simp_all add: fixture_defs)
  have some: "Map_get (clients host_and_client) (m_to offer_h1_c1) = Some ?c1"
    by (simp add: host_and_client_eq fixture_defs Map_get_def)
  have none: "Map_get (clients host_and_client) (m_to offer_h1_c9) = None"
    by (simp add: host_and_client_eq fixture_defs Map_get_def)
  have stl: "Map_get (clients stale_host) (m_to offer_c1_h2) = Some ?h2"
    by (simp add: stale_host_eq fixture_defs Map_get_def)
  have o: "readyState host_and_client 3 = OPEN"
    by (simp add: host_and_client_eq)
  have sc: "readyState stale_host 2 \<noteq> OPEN"
    by (simp add: stale_host_eq)
  have tk: "ticks host_and_client = 4" and stk: "ticks stale_host = 9"
    by (simp_all add: host_and_client_eq stale_host_eq)
  have t1': "m_type offer_h1_c1 = Some OFFER \<or> m_type offer_h1_c1 = Some ANSWER
      \<or> m_type offer_h1_c1 = Some ICE_CANDIDATE"
    and t9': "m_type offer_h1_c9 = Some OFFER \<or> m_type offer_h1_c9 = Some ANSWER
      \<or> m_type offer_h1_c9 = Some ICE_CANDIDATE"
    and t2': "m_type offer_c1_h2 = Some OFFER \<or> m_type offer_c1_h2 = Some ANSWER
      \<or> m_type offer_c1_h2 = Some ICE_CANDIDATE"
    using t1 t9 t2 by simp_all
  note i1 = C4_forwarding [OF t1', of host_and_client demo_env 2]
  from i1 [THEN conjunct1, rule_format, OF some]
  have a: "on_message demo_env 2 (JsonObject offer_h1_c1) host_and_client =
       host_and_client\<lparr>sends := sends host_and_client @ [Written 3 (Forwarded offer_h1_c1)],
         sent_at := sent_at host_and_client @ [4]\<rparr>"
    by (simp add: attempt_open [OF o] tk)
  from i1 [THEN conjunct2, THEN conjunct1, rule_format, OF conjI [OF some]] o
  have a': "new_sends host_and_client
         (on_message demo_env 2 (JsonObject offer_h1_c1) host_and_client) =
       [Written 3 (Forwarded offer_h1_c1)]"
    by simp
  from C4_forwarding [OF t9', of host_and_client demo_env 2, THEN conjunct2, THEN conjunct2] none
  have b: "on_message demo_env 2 (JsonObject offer_h1_c9) host_and_client = host_and_client"
    by simp
  from C4_forwarding [OF t2', of stale_host demo_env 3, THEN conjunct1, rule_format, OF stl]
  have c: "on_message demo_env 3 (JsonObject offer_c1_h2) stale_host =
       stale_host\<lparr>sends := sends stale_host @ [Dropped 2 (Forwarded offer_c1_h2)],
         sent_at := sent_at stale_host @ [9]\<rparr>"
    by (simp add: attempt_not_open [OF sc] stk)
  from t1 t9 t2 some none o a a' b c show ?thesis by (simp only:)
qed




text \<open>
  C6, as amended. The disconnect path for a socket that no entry of \<open>clients\<close> holds is
  a no-op, whether it is run directly, by a DISCONNECT frame or by the close event (which
  only records the socket as closed): nothing is sent and the maps are unchanged. A second
  run after a first one (two runs of the handler, a DISCONNECT frame and then the close,
  or two close events) is such a no-op exactly when at most one entry held the socket
  before the first run. The keys of \<open>clients\<close> are pairwise distinct, as they are in
  every state the server reaches (\<open>distinct_clients_run\<close>).
\<close>

theorem C6_second_disconnect:
  assumes d: "distinct (map fst (clients s))"
  shows "(find (\<lambda>(k, c). c_ws c = w) (clients s) = None \<longrightarrow>
            handleDisconnect e w s = s
          \<and> on_message e w (JsonObject (m\<lparr>m_type := Some DISCONNECT\<rparr>)) s = s
          \<and> on_close e w s = s\<lparr>readyState := (readyState s)(w := CLOSED)\<rparr>)
       \<and> (handleDisconnect e w (handleDisconnect e w s) = handleDisconnect e w s)
           = (length (filter (\<lambda>(k, c). c_ws c = w) (clients s)) \<le> 1)
       \<and> (on_close e w (on_message e w (JsonObject (m\<lparr>m_type := Some DISCONNECT\<rparr>)) s) =
            (on_message e w (JsonObject (m\<lparr>m_type := Some DISCONNECT\<rparr>)) s)
              \<lparr>readyState := (readyState s)(w := CLOSED)\<rparr>)
           = (length (filter (\<lambda>(k, c). c_ws c = w) (clients s)) \<le> 1)
       \<and> (on_close e w (on_close e w s) = on_close e w s)
           = (length (filter (\<lambda>(k, c). c_ws c = w) (clients s)) \<le> 1)"
proof (intro conjI impI)
  assume none: "find (\<lambda>(k, c). c_ws c = w) (clients s) = None"
  show "handleDisconnect e w s = s"
    by (rule handleDisconnect_absent [OF none])
  show "on_message e w (JsonObject (m\<lparr>m_type := Some DISCONNECT\<rparr>)) s = s"
    by (simp add: on_message_def handleMessage_def handleDisconnect_absent [OF none])
  show "on_close e w s = s\<lparr>readyState := (readyState s)(w := CLOSED)\<rparr>"
    by (simp add: on_close_def handleDisconnect_absent none)
next
  let ?n = "length (filter (\<lambda>(k, c). c_ws c = w) (clients s))"
  let ?s0 = "s\<lparr>readyState := (readyState s)(w := CLOSED)\<rparr>"
  let ?h = "handleDisconnect e w s"
  have msg: "on_message e w (JsonObject (m\<lparr>m_type := Some DISCONNECT\<rparr>)) s = ?h"
    by (simp add: on_message_def handleMessage_def)
  have d0: "distinct (map fst (clients ?s0))" and n0: "length (filter (\<lambda>(k, c). c_ws c = w) (clients ?s0)) = ?n"
    using d by simp_all
  have rs0: "readyState (handleDisconnect e w ?s0) = (readyState s)(w := CLOSED)"
    by (simp add: readyState_handleDisconnect)
  have upd: "(handleDisconnect e w ?s0)\<lparr>readyState := (readyState (handleDisconnect e w ?s0))(w := CLOSED)\<rparr>
             = handleDisconnect e w ?s0"
    by (simp add: rs0)
  show "(handleDisconnect e w ?h = ?h) = (?n \<le> 1)"
  proof
    assume "handleDisconnect e w ?h = ?h"
    then have "length (clients (handleDisconnect e w ?h)) = length (clients ?h)" by simp
    with second_run_changes [OF d, of w e] show "?n \<le> 1" by (cases "?n \<le> 1") auto
  next
    assume "?n \<le> 1"
    then show "handleDisconnect e w ?h = ?h"
      by (rule handleDisconnect_absent [OF find_after_handleDisconnect])
  qed
  show "(on_close e w (on_message e w (JsonObject (m\<lparr>m_type := Some DISCONNECT\<rparr>)) s) =
            (on_message e w (JsonObject (m\<lparr>m_type := Some DISCONNECT\<rparr>)) s)
              \<lparr>readyState := (readyState s)(w := CLOSED)\<rparr>) = (?n \<le> 1)"
  proof
    assume eq: "on_close e w (on_message e w (JsonObject (m\<lparr>m_type := Some DISCONNECT\<rparr>)) s) =
            (on_message e w (JsonObject (m\<lparr>m_type := Some DISCONNECT\<rparr>)) s)
              \<lparr>readyState := (readyState s)(w := CLOSED)\<rparr>"
    have "clients (on_close e w ?h) = clients (handleDisconnect e w ?h)"
      by (simp add: on_close_def clients_handleDisconnect_readyState)
    with eq have "length (clients (handleDisconnect e w ?h)) = length (clients ?h)"
      unfolding msg by simp
    with second_run_changes [OF d, of w e] show "?n \<le> 1" by (cases "?n \<le> 1") auto
  next
    assume one: "?n \<le> 1"
    show "on_close e w (on_message e w (JsonObject (m\<lparr>m_type := Some DISCONNECT\<rparr>)) s) =
            (on_message e w (JsonObject (m\<lparr>m_type := Some DISCONNECT\<rparr>)) s)
              \<lparr>readyState := (readyState s)(w := CLOSED)\<rparr>"
      by (simp add: on_close_def on_message_def handleMessage_def handleDisconnect_absent
          find_after_handleDisconnect [OF one] readyState_handleDisconnect)
  qed
  show "(on_close e w (on_close e w s) = on_close e w s) = (?n \<le> 1)"
  proof
    assume eq: "on_close e w (on_close e w s) = on_close e w s"
    have "clients (on_close e w (on_close e w s)) =
          clients (handleDisconnect e w (handleDisconnect e w ?s0))"
      by (simp add: on_close_def clients_handleDisconnect_readyState)
    with eq have "length (clients (handleDisconnect e w (handleDisconnect e w ?s0))) =
          length (clients (handleDisconnect e w ?s0))"
      by (simp add: on_close_def)
    with second_run_changes [OF d0, of w e] n0 show "?n \<le> 1" by (cases "?n \<le> 1") auto
  next
    assume one: "?n \<le> 1"
    then have one0: "length (filter (\<lambda>(k, c). c_ws c = w) (clients ?s0)) \<le> 1"
      by simp
    show "on_close e w (on_close e w s) = on_close e w s"
      unfolding on_close_def upd
      by (rule handleDisconnect_absent [OF find_after_handleDisconnect [OF one0]])
  qed
qed

theorem C6_second_disconnect_witness:
  "distinct (map fst (clients host_and_client))
   \<and> length (filter (\<lambda>(k, c). c_ws c = 2) (clients host_and_client)) \<le> 1
   \<and> on_close demo_env 2 (on_close demo_env 2 host_and_client) =
       on_close demo_env 2 host_and_client
   \<and> on_close demo_env 2
         (on_message demo_env 2 (JsonObject disconnect_msg) host_and_client) =
       (on_message demo_env 2 (JsonObject disconnect_msg) host_and_client)
         \<lparr>readyState := (readyState host_and_client)(2 := CLOSED)\<rparr>
   \<and> find (\<lambda>(k, c). c_ws c = 2) (clients (on_close demo_env 2 host_and_client)) = None
   \<and> on_message demo_env 2 (JsonObject disconnect_msg) (on_close demo_env 2 host_and_client) =
       on_close demo_env 2 host_and_client
   \<and> distinct (map fst (clients two_hosts_one_socket))
   \<and> length (filter (\<lambda>(k, c). c_ws c = 2) (clients two_hosts_one_socket)) = 2
   \<and> on_close demo_env 2 (on_close demo_env 2 two_hosts_one_socket) \<noteq>
       on_close demo_env 2 two_hosts_one_socket
   \<and> handleDisconnect demo_env 2 (handleDisconnect demo_env 2 two_hosts_one_socket) \<noteq>
       handleDisconnect demo_env 2 two_hosts_one_socket"
proof -
  have d1: "distinct (map fst (clients host_and_client))"
    and one: "length (filter (\<lambda>(k, c). c_ws c = 2) (clients host_and_client)) \<le> 1"
    by (simp_all add: host_and_client_eq)
  have dc: "distinct (map fst (clients (on_close demo_env 2 host_and_client)))"
    and none: "find (\<lambda>(k, c). c_ws c = 2) (clients (on_close demo_env 2 host_and_client)) = None"
    by (simp_all add: on_close_host_eq)
  have d2: "distinct (map fst (clients two_hosts_one_socket))"
    and two: "length (filter (\<lambda>(k, c). c_ws c = 2) (clients two_hosts_one_socket)) = 2"
    by (simp_all add: two_hosts_one_socket_eq)
  have m: "disconnect_msg\<lparr>m_type := Some DISCONNECT\<rparr> = disconnect_msg"
    by (simp add: disconnect_msg_def)
  from C6_second_disconnect [OF dc, of 2 demo_env disconnect_msg, THEN conjunct1, rule_format,
      OF none, unfolded m]
  have a: "on_message demo_env 2 (JsonObject disconnect_msg) (on_close demo_env 2 host_and_client) =
       on_close demo_env 2 host_and_client"
    by blast
  note once = C6_second_disconnect [OF d1, of 2 demo_env disconnect_msg, THEN conjunct2,
      unfolded m]
  from once one
  have b: "on_close demo_env 2 (on_close demo_env 2 host_and_client) =
       on_close demo_env 2 host_and_client"
    by blast
  from once one
  have b': "on_close demo_env 2
         (on_message demo_env 2 (JsonObject disconnect_msg) host_and_client) =
       (on_message demo_env 2 (JsonObject disconnect_msg) host_and_client)
         \<lparr>readyState := (readyState host_and_client)(2 := CLOSED)\<rparr>"
    by blast
  have not_one: "\<not> length (filter (\<lambda>(k, c). c_ws c = 2) (clients two_hosts_one_socket)) \<le> 1"
    using two by simp
  note twice = C6_second_disconnect [OF d2, of 2 demo_env disconnect_msg, THEN conjunct2]
  from twice not_one
  have c: "on_close demo_env 2 (on_close demo_env 2 two_hosts_one_socket) \<noteq>
       on_close demo_env 2 two_hosts_one_socket"
    by blast
  from twice not_one
  have c': "handleDisconnect demo_env 2 (handleDisconnect demo_env 2 two_hosts_one_socket) \<noteq>
       handleDisconnect demo_env 2 two_hosts_one_socket"
    by blast
  show ?thesis
    by (intro conjI) (fact d1 one b b' none a d2 two c c')+
qed

text \<open>
  C6 as stated fails when the socket holds two entries. Socket 2 has registered the hosts
  \<open>h1\<close> and \<open>h2\<close>, socket 3 the client \<open>c1\<close>. A DISCONNECT frame on socket 2 removes
  \<open>h1\<close>; the close of socket 2 that follows is no no-op: it sends a second
  DEVICE_OFFLINE, for \<open>h2\<close>, and deletes \<open>h2\<close> from both maps.
\<close>

theorem C6_second_run_removes_second_entry:
  "new_sends two_hosts_and_client
       (step demo_env (Message 2 (JsonObject disconnect_msg)) two_hosts_and_client) =
     [Written 3 (DeviceStatus DEVICE_OFFLINE 1008
          \<lparr>deviceId = Some ''h1'', deviceName = Some ''Office-PC'', platform = Some ''macos'',
           online = False, lastSeen = 1007\<rparr>)]
   \<and> map fst (clients (step demo_env (Message 2 (JsonObject disconnect_msg))
         two_hosts_and_client)) = [Some ''h2'', Some ''c1'']
   \<and> map fst (devices (step demo_env (Message 2 (JsonObject disconnect_msg))
         two_hosts_and_client)) = [Some ''h2'']
   \<and> new_sends (step demo_env (Message 2 (JsonObject disconnect_msg)) two_hosts_and_client)
       (run demo_env [Message 2 (JsonObject disconnect_msg), Close 2] two_hosts_and_client) =
     [Written 3 (DeviceStatus DEVICE_OFFLINE 1010
          \<lparr>deviceId = Some ''h2'', deviceName = Some ''Laptop'', platform = Some ''win32'',
           online = False, lastSeen = 1009\<rparr>)]
   \<and> map fst (clients (run demo_env [Message 2 (JsonObject disconnect_msg), Close 2]
         two_hosts_and_client)) = [Some ''c1'']
   \<and> devices (run demo_env [Message 2 (JsonObject disconnect_msg), Close 2]
         two_hosts_and_client) = []"
  by (simp add: two_hosts_and_client_eq new_sends_def handler_defs fixture_defs)

text \<open>
  C7, as amended. Every message the server builds itself carries the capture time at the
  moment of its sending: when it is passed to \<open>send\<close>, its timestamp is what the latest
  call of \<open>Date.now()\<close> returned, and that call was made while the same event was handled.
  Each such message has a reading of its own, taken after the message before it was
  sent; a broadcast is one message built once, so all its recipients get the same
  reading. What is sent otherwise is the OFFER, ANSWER or ICE_CANDIDATE frame of the
  event, just as it was received, timestamp included.
\<close>

theorem C7_timestamps:
  "length (new_sent_at s (step e ev s)) = length (new_sends s (step e ev s))
   \<and> list_all (\<lambda>(a, n).
         (built_by_server (message_of a) \<and> stamped_at_send e (ticks s) (message_of a) n)
         \<or> relayed ev (message_of a))
       (send_calls s (step e ev s))
   \<and> one_reading_each (send_calls s (step e ev s))"
proof (cases ev)
  case (Connection w)
  then show ?thesis
    by (simp add: on_connection_def new_sends_def new_sent_at_def send_calls_def)
next
  case (Close w)
  let ?s0 = "s\<lparr>readyState := (readyState s)(w := CLOSED)\<rparr>"
  have "new_sends s (handleDisconnect e w ?s0) = new_sends ?s0 (handleDisconnect e w ?s0)"
    and "new_sent_at s (handleDisconnect e w ?s0) = new_sent_at ?s0 (handleDisconnect e w ?s0)"
    and "send_calls s (handleDisconnect e w ?s0) = send_calls ?s0 (handleDisconnect e w ?s0)"
    by (simp_all add: new_sends_def new_sent_at_def send_calls_def)
  with stamped_handleDisconnect [of ?s0 e w] Close show ?thesis
    by (simp add: on_close_def list_all_iff split_def)
next
  case (Message w f)
  show ?thesis
  proof (cases f)
    case Unparsable
    with Message stamped_sendError [of s e w] show ?thesis
      by (simp add: on_message_def list_all_iff split_def)
  next
    case JsonNull
    with Message stamped_sendError [of s e w] show ?thesis
      by (simp add: on_message_def list_all_iff split_def)
  next
    case JsonOther
    with Message show ?thesis
      by (simp add: on_message_def new_sends_def new_sent_at_def send_calls_def)
  next
    case (JsonObject m)
    have ev: "ev = Message w (JsonObject m)"
      using Message JsonObject by simp
    have st: "step e ev s = handleMessage e w m s"
      unfolding ev by (simp add: on_message_def)
    consider (fwd) "m_type m = Some OFFER \<or> m_type m = Some ANSWER \<or> m_type m = Some ICE_CANDIDATE"
      | (host) "m_type m = Some REGISTER_HOST" | (cli) "m_type m = Some REGISTER_CLIENT"
      | (get) "m_type m = Some GET_DEVICES" | (conn) "m_type m = Some CONNECT_REQUEST"
      | (disc) "m_type m = Some DISCONNECT"
      | (other) "handleMessage e w m s = s"
      by (cases "m_type m"; cases "the (m_type m)") (auto simp: handleMessage_def)
    then show ?thesis
    proof cases
      case fwd
      then have "handleMessage e w m s = handleOffer m s"
        using relayed_forward(2,3) [OF fwd, of s] by (auto simp: handleMessage_def)
      with relayed_forward(1) [OF fwd, of s w] show ?thesis
        unfolding st unfolding ev by (simp add: list_all_iff split_def)
    next
      case host
      with stamped_handleRegisterHost [of s e w m] show ?thesis
        unfolding st by (simp add: handleMessage_def list_all_iff split_def)
    next
      case cli
      with stamped_handleRegisterClient [of s e w m] show ?thesis
        unfolding st by (simp add: handleMessage_def list_all_iff split_def)
    next
      case get
      with stamped_handleGetDevices [of s e w] show ?thesis
        unfolding st by (simp add: handleMessage_def list_all_iff split_def)
    next
      case conn
      with stamped_handleConnectRequest [of s e w m] show ?thesis
        unfolding st by (simp add: handleMessage_def list_all_iff split_def)
    next
      case disc
      with stamped_handleDisconnect [of s e w] show ?thesis
        unfolding st by (simp add: handleMessage_def list_all_iff split_def)
    next
      case other
      then show ?thesis unfolding st
        by (simp add: new_sends_def new_sent_at_def send_calls_def)
    qed
  qed
qed

theorem C7_timestamps_witness:
  "ticks host_and_client = 4
   \<and> send_calls host_and_client
         (step demo_env (Message 3 (JsonObject connect_c1_h1)) host_and_client) =
       [(Written 2 (ConnectRequest 1004 (Some ''h1'') (Some ''c1'')), 5),
        (Written 3 (ConnectionAccepted 1005 (Some ''h1'')), 6)]
   \<and> stamped_at_send demo_env 4 (ConnectRequest 1004 (Some ''h1'') (Some ''c1'')) 5
   \<and> stamped_at_send demo_env 4 (ConnectionAccepted 1005 (Some ''h1'')) 6
   \<and> one_reading_each
       [(Written 2 (ConnectRequest 1004 (Some ''h1'') (Some ''c1'')), 5),
        (Written 3 (ConnectionAccepted 1005 (Some ''h1'')), 6)]
   \<and> ticks (step demo_env (Message 3 (JsonObject register_c2)) host_and_client) = 5
   \<and> send_calls (step demo_env (Message 3 (JsonObject register_c2)) host_and_client)
         (step demo_env (Close 2)
            (step demo_env (Message 3 (JsonObject register_c2)) host_and_client)) =
       [(Written 3 (DeviceStatus DEVICE_OFFLINE 1006
            \<lparr>deviceId = Some ''h1'', deviceName = Some ''Office-PC'', platform = Some ''macos'',
             online = False, lastSeen = 1005\<rparr>), 7),
        (Written 3 (DeviceStatus DEVICE_OFFLINE 1006
            \<lparr>deviceId = Some ''h1'', deviceName = Some ''Office-PC'', platform = Some ''macos'',
             online = False, lastSeen = 1005\<rparr>), 7)]
   \<and> stamped_at_send demo_env 5 (DeviceStatus DEVICE_OFFLINE 1006
            \<lparr>deviceId = Some ''h1'', deviceName = Some ''Office-PC'', platform = Some ''macos'',
             online = False, lastSeen = 1005\<rparr>) 7"
proof -
  let ?req = "ConnectRequest 1004 (Some ''h1'') (Some ''c1'')"
  let ?acc = "ConnectionAccepted 1005 (Some ''h1'')"
  let ?off = "DeviceStatus DEVICE_OFFLINE 1006
            \<lparr>deviceId = Some ''h1'', deviceName = Some ''Office-PC'', platform = Some ''macos'',
             online = False, lastSeen = 1005\<rparr>"
  let ?two = "step demo_env (Message 3 (JsonObject register_c2)) host_and_client"
  have tk: "ticks host_and_client = 4"
    by (simp add: host_and_client_eq)
  have sc: "send_calls host_and_client
         (step demo_env (Message 3 (JsonObject connect_c1_h1)) host_and_client) =
       [(Written 2 ?req, 5), (Written 3 ?acc, 6)]"
    by (simp add: send_calls_def new_sends_def new_sent_at_def host_and_client_eq handler_defs
        connect_c1_h1_def no_fields_def clock_demo_env)
  have tk2: "ticks ?two = 5"
    by (simp add: host_and_client_eq handler_defs register_c2_def no_fields_def)
  have sd: "send_calls ?two (step demo_env (Close 2) ?two) =
       [(Written 3 ?off, 7), (Written 3 ?off, 7)]"
    by (simp add: send_calls_def new_sends_def new_sent_at_def host_and_client_eq handler_defs
        register_c2_def no_fields_def clock_demo_env)
  have nr: "\<not> relayed (Message 3 (JsonObject connect_c1_h1)) ?req"
    "\<not> relayed (Message 3 (JsonObject connect_c1_h1)) ?acc"
    "\<not> relayed (Close 2) ?off"
    by (simp_all add: relayed_def)
  from C7_timestamps [of host_and_client demo_env "Message 3 (JsonObject connect_c1_h1)",
      unfolded sc tk] nr
  have a: "stamped_at_send demo_env 4 ?req 5" and b: "stamped_at_send demo_env 4 ?acc 6"
    and c: "one_reading_each [(Written 2 ?req, 5), (Written 3 ?acc, 6)]"
    by simp_all
  from C7_timestamps [of ?two demo_env "Close 2", unfolded sd tk2] nr
  have d: "stamped_at_send demo_env 5 ?off 7"
    by simp
  from tk sc tk2 sd a b c d show ?thesis by (simp only:)
qed

text \<open>
  C7 as stated fails for the relayed frames: an OFFER that host \<open>h1\<close> sends with
  timestamp 5 reaches client \<open>c1\<close> with timestamp 5, while the server has not read its
  clock at all (its next reading would be 1004).
\<close>

theorem C7_relayed_offer_keeps_sender_timestamp:
  "new_sends host_and_client (step demo_env (Message 2 (JsonObject offer_h1_c1)) host_and_client) =
     [Written 3 (Forwarded offer_h1_c1)]
   \<and> timestamp (Forwarded offer_h1_c1) = Some 5
   \<and> ticks (step demo_env (Message 2 (JsonObject offer_h1_c1)) host_and_client) =
       ticks host_and_client
   \<and> clock demo_env (ticks host_and_client) = 1004"
  by (simp add: on_message_def handleMessage_def handleOffer_def send_def Map_get_def new_sends_def
      host_and_client_eq offer_h1_c1_def no_fields_def clock_demo_env)



text \<open>
  C9. A REGISTER_CLIENT whose \<open>clientId\<close> is the empty string leaves the server in the
  same state as the same frame without \<open>clientId\<close>: the entry is stored under the next
  value of the generator, that value is the id of the AUTH_SUCCESS reply, and (the
  generator returning a non-empty string) what \<open>clients\<close> holds under the empty string
  is what it held before.
\<close>

theorem C9_empty_clientId:
  "on_message e w (JsonObject (m\<lparr>m_type := Some REGISTER_CLIENT, m_clientId := Some ''''\<rparr>)) s =
   on_message e w (JsonObject (m\<lparr>m_type := Some REGISTER_CLIENT, m_clientId := None\<rparr>)) s
 \<and> clients (on_message e w
       (JsonObject (m\<lparr>m_type := Some REGISTER_CLIENT, m_clientId := Some ''''\<rparr>)) s) =
     Map_set (Some (uuid e (draws s)))
       \<lparr>c_id = Some (uuid e (draws s)), c_ws = w, c_type = client, c_device = None\<rparr> (clients s)
 \<and> draws (on_message e w
       (JsonObject (m\<lparr>m_type := Some REGISTER_CLIENT, m_clientId := Some ''''\<rparr>)) s) =
     Suc (draws s)
 \<and> (readyState s w = OPEN \<longrightarrow>
       new_sends s (on_message e w
         (JsonObject (m\<lparr>m_type := Some REGISTER_CLIENT, m_clientId := Some ''''\<rparr>)) s) =
       [Written w (AuthSuccess (clock e (ticks s)) (Some (uuid e (draws s))))])
 \<and> (uuid e (draws s) \<noteq> '''' \<longrightarrow>
       Map_get (clients (on_message e w
         (JsonObject (m\<lparr>m_type := Some REGISTER_CLIENT, m_clientId := Some ''''\<rparr>)) s)) (Some '''') =
       Map_get (clients s) (Some ''''))"
  by (simp add: on_message_def handleMessage_def handleRegisterClient_eq clientId_or_uuid_cases
      new_sends_def attempt_open Map_get_Map_set)

theorem C9_empty_clientId_witness:
  "readyState three_sockets 4 = OPEN
   \<and> uuid demo_env (draws three_sockets) \<noteq> ''''
   \<and> new_sends three_sockets (on_message demo_env 4
         (JsonObject (register_c1\<lparr>m_type := Some REGISTER_CLIENT, m_clientId := Some ''''\<rparr>))
         three_sockets) = [Written 4 (AuthSuccess 1004 (Some ''uuid-x''))]
   \<and> map fst (clients (on_message demo_env 4
         (JsonObject (register_c1\<lparr>m_type := Some REGISTER_CLIENT, m_clientId := Some ''''\<rparr>))
         three_sockets)) = [Some ''h1'', Some ''c1'', Some ''uuid-x'']
   \<and> Map_get (clients (on_message demo_env 4
         (JsonObject (register_c1\<lparr>m_type := Some REGISTER_CLIENT, m_clientId := Some ''''\<rparr>))
         three_sockets)) (Some '''') = None"
proof -
  have o: "readyState three_sockets 4 = OPEN"
    by (simp add: three_sockets_eq)
  have tk: "ticks three_sockets = 4" and dr: "draws three_sockets = 0"
    by (simp_all add: three_sockets_eq)
  have u: "uuid demo_env 0 = ''uuid-x''"
    by (simp add: uuid_demo_env)
  have ne: "uuid demo_env (draws three_sockets) \<noteq> ''''"
    by (simp add: dr u)
  have before: "Map_get (clients three_sockets) (Some '''') = None"
    by (simp add: three_sockets_eq Map_get_def)
  note inst = C9_empty_clientId [of demo_env 4 register_c1 three_sockets, THEN conjunct2,
      unfolded clock_demo_env]
  from inst o have "new_sends three_sockets (on_message demo_env 4
         (JsonObject (register_c1\<lparr>m_type := Some REGISTER_CLIENT, m_clientId := Some ''''\<rparr>))
         three_sockets) =
       [Written 4 (AuthSuccess (1000 + ticks three_sockets) (Some (uuid demo_env (draws three_sockets))))]"
    by blast
  then have a: "new_sends three_sockets (on_message demo_env 4
         (JsonObject (register_c1\<lparr>m_type := Some REGISTER_CLIENT, m_clientId := Some ''''\<rparr>))
         three_sockets) = [Written 4 (AuthSuccess 1004 (Some ''uuid-x''))]"
    by (simp only: tk dr u) simp
  from inst have "clients (on_message demo_env 4
         (JsonObject (register_c1\<lparr>m_type := Some REGISTER_CLIENT, m_clientId := Some ''''\<rparr>))
         three_sockets) =
       Map_set (Some (uuid demo_env (draws three_sockets)))
         \<lparr>c_id = Some (uuid demo_env (draws three_sockets)), c_ws = 4, c_type = client,
           c_device = None\<rparr>
         (clients three_sockets)"
    by blast
  then have b: "map fst (clients (on_message demo_env 4
         (JsonObject (register_c1\<lparr>m_type := Some REGISTER_CLIENT, m_clientId := Some ''''\<rparr>))
         three_sockets)) = [Some ''h1'', Some ''c1'', Some ''uuid-x'']"
    by (simp add: three_sockets_eq u)
  from inst ne have "Map_get (clients (on_message demo_env 4
         (JsonObject (register_c1\<lparr>m_type := Some REGISTER_CLIENT, m_clientId := Some ''''\<rparr>))
         three_sockets)) (Some '''') = Map_get (clients three_sockets) (Some '''')"
    by blast
  with before have c: "Map_get (clients (on_message demo_env 4
         (JsonObject (register_c1\<lparr>m_type := Some REGISTER_CLIENT, m_clientId := Some ''''\<rparr>))
         three_sockets)) (Some '''') = None"
    by (simp only:)
  from o ne a b c show ?thesis by (simp only:) simp
qed

text \<open>
  C10. One run of the disconnect path (here through the close event; a DISCONNECT frame
  runs the same handler) deletes the first entry of \<open>clients\<close> that holds the socket and
  no other: the map is one entry shorter, and every entry under another id, in particular
  a second entry of the same socket, is still there with the device stored under its id
  unchanged.
\<close>

theorem C10_disconnect_removes_one_entry:
  assumes "distinct (map fst (clients s))"
      and "find (\<lambda>(k, c). c_ws c = w) (clients s) = Some (k1, c1)"
  shows "clients (on_close e w s) = remove1 (k1, c1) (clients s)
       \<and> Suc (length (clients (on_close e w s))) = length (clients s)
       \<and> (\<forall>(k2, c2) \<in> set (clients s). k2 \<noteq> k1 \<longrightarrow>
             (k2, c2) \<in> set (clients (on_close e w s))
           \<and> Map_get (devices (on_close e w s)) k2 = Map_get (devices s) k2)"
proof -
  let ?s0 = "s\<lparr>readyState := (readyState s)(w := CLOSED)\<rparr>"
  from find_Some_set [OF assms(2)] have mem: "(k1, c1) \<in> set (clients s)" by simp
  have cl: "clients (on_close e w s) = Map_delete k1 (clients s)"
    using assms(2) by (simp add: on_close_def clients_handleDisconnect)
  have dv: "devices (on_close e w s) = devices s \<or> devices (on_close e w s) = Map_delete k1 (devices s)"
    using assms(2)
    by (simp add: on_close_def handleDisconnect_eq split: option.splits prod.splits ClientType.splits)
  have r: "clients (on_close e w s) = remove1 (k1, c1) (clients s)"
    using cl Map_delete_remove1 [OF assms(1) mem] by simp
  have l: "Suc (length (clients (on_close e w s))) = length (clients s)"
    using r mem length_pos_if_in_set [OF mem] by (simp add: length_remove1)
  have others: "\<forall>(k2, c2) \<in> set (clients s). k2 \<noteq> k1 \<longrightarrow>
             (k2, c2) \<in> set (clients (on_close e w s))
           \<and> Map_get (devices (on_close e w s)) k2 = Map_get (devices s) k2"
    using dv by (auto simp: cl set_Map_delete Map_get_Map_delete)
  from r l others show ?thesis by simp
qed

theorem C10_disconnect_removes_one_entry_witness:
  "distinct (map fst (clients two_hosts_one_socket))
   \<and> find (\<lambda>(k, c). c_ws c = 2) (clients two_hosts_one_socket) =
       Some (Some ''h1'', \<lparr>c_id = Some ''h1'', c_ws = 2, c_type = host, c_device = Some
                   \<lparr>deviceId = Some ''h1'', deviceName = Some ''Office-PC'', platform = Some ''macos'',
                    online = True, lastSeen = 1000\<rparr>\<rparr>)
   \<and> clients (on_close demo_env 2 two_hosts_one_socket) =
       [(Some ''h2'', \<lparr>c_id = Some ''h2'', c_ws = 2, c_type = host, c_device = Some
                   \<lparr>deviceId = Some ''h2'', deviceName = Some ''Laptop'', platform = Some ''win32'',
                    online = True, lastSeen = 1003\<rparr>\<rparr>)]
   \<and> Map_get (devices (on_close demo_env 2 two_hosts_one_socket)) (Some ''h2'') =
       Some \<lparr>deviceId = Some ''h2'', deviceName = Some ''Laptop'', platform = Some ''win32'',
             online = True, lastSeen = 1003\<rparr>"
proof -
  have d: "distinct (map fst (clients two_hosts_one_socket))"
    by (simp add: two_hosts_one_socket_eq)
  have f: "find (\<lambda>(k, c). c_ws c = 2) (clients two_hosts_one_socket) =
       Some (Some ''h1'', \<lparr>c_id = Some ''h1'', c_ws = 2, c_type = host, c_device = Some
                   \<lparr>deviceId = Some ''h1'', deviceName = Some ''Office-PC'', platform = Some ''macos'',
                    online = True, lastSeen = 1000\<rparr>\<rparr>)"
    by (simp add: two_hosts_one_socket_eq)
  from C10_disconnect_removes_one_entry [OF d f, of demo_env] d f show ?thesis
    by (simp add: two_hosts_one_socket_eq Map_get_def)
qed

end
